theory Spec2Isabelle
  imports Complex_Main "HOL-Library.Word" "HOL-Library.Log_Nat"
begin

section \<open>The bubbles demo (src/bubbles.cpp)\<close>

text \<open>
  A shallow embedding of the single program of the repository. Conventions:
  \<^item> A \<open>float\<close> is a binary32 value, kept as the real number it denotes. Every \<open>float\<close>
    operation of the C++ code and of the shader is the exact operation followed by
    \<open>round32\<close>, rounding to the nearest binary32 value with ties to even; a literal such
    as \<open>.1f\<close> is \<open>round32 0.1\<close>. Each operation rounds by itself: \<open>float\<close> expressions
    are evaluated in \<open>float\<close> (\<open>FLT_EVAL_METHOD\<close> 0), without fused multiply-add.
    Infinities and NaN are not modelled: no value of the program comes near \<open>2 ^ 128\<close>.
  \<^item> The \<open>double\<close>s of the frame-rate report are kept as reals without rounding.
  \<^item> \<open>int\<close> counters that the code increments are 32-bit words read as two's complement
    (\<open>sint\<close>); values only passed through (framebuffer sizes, uniform locations) are \<open>int\<close>.
  \<^item> Calls into GLFW, OpenGL ES and stdio are not executed but recorded: a run yields the
    list of calls it made, in order, and what the libraries answer is an input of the model.
\<close>

subsection \<open>Binary32 arithmetic\<close>

text \<open>Rounding a real to the nearest integer, a tie to the even one.\<close>

definition round_even :: "real \<Rightarrow> int" where
  "round_even v =
     (let f = \<lfloor>v\<rfloor>
      in if v - of_int f < 1 / 2 then f
         else if 1 / 2 < v - of_int f then f + 1
         else if even f then f else f + 1)"

text \<open>
  The exponent of the unit in the last place around \<open>v\<close>: a binary32 value has 24
  significant bits, so for \<open>2 ^ e \<le> |v| < 2 ^ (e + 1)\<close> it is \<open>e - 23\<close>, and it is \<open>-149\<close>
  throughout the subnormal range and the lowest normal binade. (\<open>bitlen m\<close> is the number
  of binary digits of \<open>m\<close>.)
\<close>

definition qexp :: "real \<Rightarrow> int" where
  "qexp v = max (bitlen \<lfloor>\<bar>v\<bar> * 2 ^ 149\<rfloor> - 173) (- 149)"

definition round32 :: "real \<Rightarrow> real" where
  "round32 v = of_int (round_even (v / 2 powi qexp v)) * 2 powi qexp v"

subsection \<open>The vertex shader's position fold (\<open>vs\<close>, lines 27 to 30)\<close>

text \<open>
  GLSL's \<open>mod(x, y)\<close> is \<open>x - y * floor(x / y)\<close>. OpenGL ES leaves the precision of the
  division in it to the implementation, so the shader's \<open>mod\<close> is a parameter of the
  fold below; \<open>glsl_mod32\<close> is the \<open>mod\<close> of an implementation that rounds every
  operation, the division included, to the nearest binary32 value.
\<close>

definition glsl_mod32 :: "real \<Rightarrow> real \<Rightarrow> real" where
  "glsl_mod32 a m = round32 (a - round32 (m * of_int \<lfloor>round32 (a / m)\<rfloor>))"

text \<open>
  One component of the \<open>vec2\<close> computation
  \<^verbatim>\<open>center = bubble.xy + speed * T; span = window - 2.0 * r;\<close>
  \<^verbatim>\<open>center = span - abs(span - mod(center - r, span * 2.0)) + r;\<close>
  GLSL applies every operator of these lines componentwise, and the scalars \<open>T\<close> and \<open>r\<close>
  are shared by both components. \<open>span_axis\<close> is \<open>span\<close>, \<open>mod_axis\<close> is the value of the
  call of \<open>mod\<close>, and \<open>fold_axis\<close> is the final \<open>center\<close>.
\<close>

definition span_axis :: "real \<Rightarrow> real \<Rightarrow> real" where
  "span_axis window r = round32 (window - round32 (2 * r))"

definition mod_axis ::
    "(real \<Rightarrow> real \<Rightarrow> real) \<Rightarrow> real \<Rightarrow> real \<Rightarrow> real \<Rightarrow> real \<Rightarrow> real \<Rightarrow> real" where
  "mod_axis md window T bubble speed r =
     (let center = round32 (bubble + round32 (speed * T));
          span = span_axis window r
      in md (round32 (center - r)) (round32 (span * 2)))"

definition fold_axis ::
    "(real \<Rightarrow> real \<Rightarrow> real) \<Rightarrow> real \<Rightarrow> real \<Rightarrow> real \<Rightarrow> real \<Rightarrow> real \<Rightarrow> real" where
  "fold_axis md window T bubble speed r =
     (let span = span_axis window r
      in round32 (round32 (span - \<bar>round32 (span - mod_axis md window T bubble speed r)\<bar>)
                  + r))"

type_synonym vec2 = "real \<times> real"

definition vs_center ::
    "(real \<Rightarrow> real \<Rightarrow> real) \<Rightarrow> vec2 \<Rightarrow> real \<Rightarrow> vec2 \<Rightarrow> vec2 \<Rightarrow> real \<Rightarrow> vec2" where
  "vs_center md window T bubble_xy speed r =
     (fold_axis md (fst window) T (fst bubble_xy) (fst speed) r,
      fold_axis md (snd window) T (snd bubble_xy) (snd speed) r)"

text \<open>
  The fold as the specification states it, in exact arithmetic, for comparison with the
  shader's: \<open>mod\<close> on the reals, and
  \<open>wrapped = span - |span - ((c - r) mod (2 * span))| + r\<close> for the unfolded centre
  \<open>c = c0 + v * T\<close>.
\<close>

definition spec_mod :: "real \<Rightarrow> real \<Rightarrow> real" where
  "spec_mod a m = a - m * of_int \<lfloor>a / m\<rfloor>"

definition spec_wrapped :: "real \<Rightarrow> real \<Rightarrow> real \<Rightarrow> real" where
  "spec_wrapped s c a = s - \<bar>s - spec_mod (c - a) (2 * s)\<bar> + a"

subsection \<open>Backend selection (\<open>main\<close>, lines 124 to 147)\<close>

datatype angle_platform = OPENGL | OPENGLES | D3D11 | VULKAN | METAL

text \<open>
  The body of the \<open>for\<close> loop: \<open>glfwInitHint(GLFW_ANGLE_PLATFORM_TYPE, p)\<close> overwrites the
  one hint GLFW keeps, and an argument that equals none of the five strings calls nothing.
\<close>

definition select_step :: "angle_platform \<Rightarrow> string \<Rightarrow> angle_platform" where
  "select_step hint arg =
     (if arg = ''--gl'' then OPENGL
      else if arg = ''--gles'' then OPENGLES
      else if arg = ''--d3d'' then D3D11
      else if arg = ''--vk'' then VULKAN
      else if arg = ''--mtl'' then METAL
      else hint)"

text \<open>
  The hint is set to Vulkan first (line 124); the loop runs over \<open>argv[1]\<close> to
  \<open>argv[argc - 1]\<close>, so \<open>argv[0]\<close> is never compared.
\<close>

definition select_backend :: "string list \<Rightarrow> angle_platform" where
  "select_backend argv = foldl select_step VULKAN (drop 1 argv)"

text \<open>
  The specification's wording of the same selection, to be compared with the code: the
  table of flags of its section 6, and ``the last matching flag wins, Vulkan when no flag
  is given, unrecognized arguments are ignored''.
\<close>

definition spec_flag :: "string \<Rightarrow> angle_platform option" where
  "spec_flag arg =
     map_of [(''--gl'', OPENGL), (''--gles'', OPENGLES), (''--d3d'', D3D11),
             (''--vk'', VULKAN), (''--mtl'', METAL)] arg"

definition spec_backend :: "string list \<Rightarrow> angle_platform" where
  "spec_backend args =
     (case rev (List.map_filter spec_flag args) of
        [] \<Rightarrow> VULKAN
      | p # _ \<Rightarrow> p)"

subsection \<open>Bubble generation (lines 103 to 112 and 196 to 208)\<close>

definition lerp :: "real \<Rightarrow> real \<Rightarrow> real \<Rightarrow> real" where
  "lerp a b t = round32 (a + round32 (round32 (b - a) * t))"

text \<open>
  The C library's generator is its stream of future results: \<open>g i\<close> is what the \<open>i\<close>-th
  call of \<open>rand()\<close> from now on returns. \<open>RAND_MAX\<close> is a macro of the C library and a
  parameter here, and so is the library's function \<open>powf\<close>.
\<close>

type_synonym rng = "nat \<Rightarrow> int"

definition rand :: "rng \<Rightarrow> int \<times> rng" where
  "rand g = (g 0, \<lambda>i. g (Suc i))"

text \<open>What the C standard promises of \<open>rand()\<close>: every result is in \<open>[0, RAND_MAX]\<close>.\<close>

definition rand_in_range :: "int \<Rightarrow> rng \<Rightarrow> bool" where
  "rand_in_range RAND_MAX g = (\<forall>i. 0 \<le> g i \<and> g i \<le> RAND_MAX)"

text \<open>
  What is asked of \<open>powf\<close>: the fourth power of a number in \<open>[0, 1]\<close> is returned as a
  number in \<open>[0, 1]\<close>. \<open>powf_rounded\<close> is a \<open>powf\<close> that returns the correctly rounded power
  for an exponent that is a natural number.
\<close>

definition powf_in_unit :: "(real \<Rightarrow> real \<Rightarrow> real) \<Rightarrow> bool" where
  "powf_in_unit powf = (\<forall>u. 0 \<le> u \<and> u \<le> 1 \<longrightarrow> 0 \<le> powf u 4 \<and> powf u 4 \<le> 1)"

definition powf_rounded :: "real \<Rightarrow> real \<Rightarrow> real" where
  "powf_rounded a b = round32 (a ^ nat \<lfloor>b\<rfloor>)"

text \<open>\<open>(float)rand() / RAND_MAX\<close>: both integers are converted to \<open>float\<close>, then divided.\<close>

definition frand :: "int \<Rightarrow> rng \<Rightarrow> real \<times> rng" where
  "frand RAND_MAX g =
     (let (v, g') = rand g
      in (round32 (round32 (real_of_int v) / round32 (real_of_int RAND_MAX)), g'))"

definition frand2 :: "int \<Rightarrow> real \<Rightarrow> real \<Rightarrow> rng \<Rightarrow> real \<times> rng" where
  "frand2 RAND_MAX lo hi g = (let (u, g') = frand RAND_MAX g in (lerp lo hi u, g'))"

record Bubble =
  x :: real
  y :: real
  r :: real
  dx :: real
  dy :: real
  color :: "real \<times> real \<times> real \<times> real"

text \<open>The body of the range-\<open>for\<close> loop; the calls of \<open>frand\<close> in program order.\<close>

definition gen_bubble :: "int \<Rightarrow> (real \<Rightarrow> real \<Rightarrow> real) \<Rightarrow> rng \<Rightarrow> Bubble \<times> rng" where
  "gen_bubble RAND_MAX powf g0 =
     (let (u, g1) = frand RAND_MAX g0;
          rr = lerp (round32 0.1) (round32 0.3) (powf u 4);
          (fx, g2) = frand2 RAND_MAX (round32 (- 1 + rr)) (round32 (1 - rr)) g1;
          (fy, g3) = frand2 RAND_MAX (round32 (- 1 + rr)) (round32 (1 - rr)) g2;
          (fdx, g4) = frand RAND_MAX g3;
          (fdy, g5) = frand RAND_MAX g4;
          (c0, g6) = frand2 RAND_MAX (round32 0.5) 1 g5;
          (c1, g7) = frand2 RAND_MAX (round32 0.5) 1 g6;
          (c2, g8) = frand2 RAND_MAX (round32 0.5) 1 g7;
          (c3, g9) = frand2 RAND_MAX (round32 0.75) 1 g8
      in (\<lparr>x = round32 (round32 (fx + 1) * 1024),
           y = round32 (round32 (fy + 1) * 1024),
           r = round32 (rr * 1024),
           dx = round32 (round32 (round32 (fdx - round32 0.5) * round32 0.02) * 1024),
           dy = round32 (round32 (round32 (fdy - round32 0.5) * round32 0.02) * 1024),
           color = (c0, c1, c2, c3)\<rparr>, g9))"

fun gen_bubbles :: "int \<Rightarrow> (real \<Rightarrow> real \<Rightarrow> real) \<Rightarrow> nat \<Rightarrow> rng \<Rightarrow> Bubble list" where
  "gen_bubbles RAND_MAX powf 0 g = []"
| "gen_bubbles RAND_MAX powf (Suc k) g =
     (let (b, g') = gen_bubble RAND_MAX powf g in b # gen_bubbles RAND_MAX powf k g')"

definition n :: nat where
  "n = 800"

definition bubbles :: "int \<Rightarrow> (real \<Rightarrow> real \<Rightarrow> real) \<Rightarrow> rng \<Rightarrow> Bubble list" where
  "bubbles RAND_MAX powf g = gen_bubbles RAND_MAX powf n g"

subsection \<open>Calls into GLFW, OpenGL ES and stdio\<close>

text \<open>
  A run is recorded as the list of the calls it makes that act on the libraries or write
  output. Arguments that are the same constant at every call site (\<open>GL_TEXTURE_2D\<close>,
  \<open>GL_RGBA8\<close>, \<open>GL_FLOAT\<close>, \<open>GL_TRIANGLE_STRIP\<close>, the window) are left out. Calls that only
  ask (\<open>glGetShaderiv\<close>, \<open>glGetUniformLocation\<close>, \<open>glfwGetFramebufferSize\<close>, \<open>now\<close>) are not
  recorded: their answers are inputs.
\<close>

datatype shader_type = GL_VERTEX_SHADER | GL_FRAGMENT_SHADER

datatype framebuffer_target = GL_FRAMEBUFFER | GL_READ_FRAMEBUFFER | GL_DRAW_FRAMEBUFFER

datatype framebuffer_pname = GL_FRAMEBUFFER_DEFAULT_WIDTH | GL_FRAMEBUFFER_DEFAULT_HEIGHT

datatype call =
    fprintf_stderr string
  | fflush_stderr
  | printf string
  | printf_fps real
  | fflush_stdout
  | glfwInit angle_platform
  | glfwWindowHint string string
  | glfwCreateWindow int int string
  | glfwSetWindowTitle string
  | glfwMakeContextCurrent
  | glfwSwapInterval int
  | glfwSwapBuffers
  | glfwPollEvents
  | glfwTerminate
  | gladLoadGLES2Loader
  | glCreateProgram nat
  | glCreateShader shader_type nat
  | glShaderSource nat string
  | glCompileShader nat
  | glAttachShader nat nat
  | glDeleteShader nat
  | glLinkProgram nat
  | glUseProgram nat
  | glGenBuffers nat
  | glBindBuffer nat
  | glBufferData "Bubble list"
  | glEnableVertexAttribArray nat
  | glVertexAttribPointer nat nat bool nat nat
  | glVertexAttribDivisor nat nat
  | glGenFramebuffers nat
  | glBindFramebuffer framebuffer_target nat
  | glClearColor real real real real
  | glDisableDither
  | glViewport int int int int
  | glUniform2f int real real
  | glUniform1f int real
  | glDeleteTextures nat
  | glGenTextures nat
  | glBindTexture nat
  | glTexStorage2D nat int int
  | glFramebufferTexture2D nat
  | glDrawBuffers nat
  | glFramebufferParameteri framebuffer_pname int
  | glBindImageTexture nat nat
  | glDrawArraysInstanced nat nat nat
  | glBlitFramebuffer int int int int int int int int

text \<open>
  \<open>printf_fps v\<close> stands for \<open>printf("%f fps\n", v)\<close>: the decimal rendering of a double is
  not modelled, the value printed is. \<open>glCreateProgram p\<close>, \<open>glCreateShader t s\<close>,
  \<open>glGenBuffers b\<close>, \<open>glGenFramebuffers f\<close> and \<open>glGenTextures t\<close> carry the name the library
  returned.
\<close>

abbreviation eol :: string where
  "eol \<equiv> [CHR 0x0A]"

subsection \<open>Formatting integers (\<open>%i\<close> and \<open>%4i\<close>)\<close>

fun dec :: "nat \<Rightarrow> string" where
  "dec k = (if k < 10 then [''0123456789'' ! k]
            else dec (k div 10) @ [''0123456789'' ! (k mod 10)])"

declare dec.simps [simp del]

definition fmt_i :: "int \<Rightarrow> string" where
  "fmt_i v = (if v < 0 then CHR ''-'' # dec (nat (- v)) else dec (nat v))"

definition fmt_4i :: "int \<Rightarrow> string" where
  "fmt_4i v = (let s = fmt_i v in replicate (4 - length s) CHR '' '' @ s)"

subsection \<open>The shader sources (lines 14 to 49)\<close>

text \<open>The raw string literals, line by line; neither ends with a newline.\<close>

definition vs :: string where
  "vs = ''#version 310 es'' @ eol
      @ ''precision highp float;'' @ eol
      @ ''uniform vec2 window;'' @ eol
      @ ''uniform float T;'' @ eol
      @ ''layout(location=0) in vec3 bubble;'' @ eol
      @ ''layout(location=1) in vec2 speed;'' @ eol
      @ ''layout(location=2) in vec4 incolor;'' @ eol
      @ ''out vec2 coord;'' @ eol
      @ ''out vec4 color;'' @ eol
      @ ''void main() {'' @ eol
      @ ''    vec2 offset = vec2((gl_VertexID & 1) == 0 ? -1.0 : 1.0, (gl_VertexID & 2) == 0 ? -1.0 : 1.0);'' @ eol
      @ ''    coord = offset;'' @ eol
      @ ''    color = incolor;'' @ eol
      @ ''    float r = bubble.z;'' @ eol
      @ ''    vec2 center = bubble.xy + speed * T;'' @ eol
      @ ''    vec2 span = window - 2.0 * r;'' @ eol
      @ ''    center = span - abs(span - mod(center - r, span * 2.0)) + r;'' @ eol
      @ ''    gl_Position.xy = (center + offset * r) * 2.0 / window - 1.0;'' @ eol
      @ ''    gl_Position.zw = vec2(0, 1);'' @ eol
      @ ''}''"

definition fs :: string where
  "fs = ''#version 310 es'' @ eol
      @ ''precision mediump float;'' @ eol
      @ eol
      @ ''in vec2 coord;'' @ eol
      @ ''in vec4 color;'' @ eol
      @ eol
      @ ''layout(binding=0, r32ui) uniform highp coherent writeonly uimage2D framebuffer;'' @ eol
      @ eol
      @ ''void main() {'' @ eol
      @ ''    ivec2 pixelCoord = ivec2(floor(gl_FragCoord.xy));'' @ eol
      @ ''    float f = coord.x * coord.x + coord.y * coord.y - 1.0;'' @ eol
      @ ''    float coverage = clamp(.5 - f/fwidth(f), 0.0, 1.0);'' @ eol
      @ ''    vec4 s = vec4(color.rgb, 1) * (color.a * mix(.25, 1.0, dot(coord, coord)) * coverage);'' @ eol
      @ ''    imageStore(framebuffer, pixelCoord, uvec4(packUnorm4x8(s)));'' @ eol
      @ ''}''"

subsection \<open>\<open>compile_and_attach_shader\<close> and \<open>link_program\<close> (lines 51 to 98)\<close>

text \<open>
  One \<open>std::getline(stream, lineStr, '\n')\<close>: it fails when the stream is at its end,
  and otherwise yields the characters before the next newline and leaves the stream
  behind that newline.
\<close>

fun getline :: "string \<Rightarrow> (string \<times> string) option" where
  "getline [] = None"
| "getline (c # cs) =
     Some (takeWhile (\<lambda>d. d \<noteq> CHR 0x0A) (c # cs),
           drop 1 (dropWhile (\<lambda>d. d \<noteq> CHR 0x0A) (c # cs)))"

text \<open>
  The loop \<open>while (std::getline(stream, lineStr, '\n')) fprintf(stderr, "%4i| %s\n", l++, ...)\<close>.
\<close>

function listing :: "int \<Rightarrow> string \<Rightarrow> call list" where
  "listing l stream =
     (case getline stream of
        None \<Rightarrow> []
      | Some (lineStr, rest) \<Rightarrow>
          fprintf_stderr (fmt_4i l @ ''| '' @ lineStr @ eol) # listing (l + 1) rest)"
  by pat_completeness auto
termination
proof (relation "measure (\<lambda>(l, stream). length stream)")
  show "wf (measure (\<lambda>(l, stream). length stream))"
    by simp
next
  fix l :: int and stream :: string and p lineStr rest
  assume "getline stream = Some p" and "(lineStr, rest) = p"
  then have "rest = drop 1 (dropWhile (\<lambda>d. d \<noteq> CHR 0x0A) stream)" and "stream \<noteq> []"
    by (cases stream; auto)+
  moreover have "length (dropWhile (\<lambda>d. d \<noteq> CHR 0x0A) stream) \<le> length stream"
    by (rule length_dropWhile_le)
  ultimately show "((l + 1, rest), (l, stream)) \<in> measure (\<lambda>(l, stream). length stream)"
    by (cases stream) auto
qed

declare listing.simps [simp del]

text \<open>
  How a function ends: it returns a value, or it runs into behaviour the language leaves
  undefined, after which nothing is known.
\<close>

datatype 'a outcome = returned 'a | undefined_behaviour

text \<open>
  What the driver answers for one shader: the name \<open>glCreateShader\<close> returns, the compile
  status, and the info log: \<open>None\<close> when the shader has none, and \<open>GL_INFO_LOG_LENGTH\<close> is
  0, and otherwise its text (\<open>GL_INFO_LOG_LENGTH\<close> is then the length of the text plus one).

  With \<open>GL_INFO_LOG_LENGTH\<close> 0 the vector \<open>infoLog\<close> is empty, and \<open>&infoLog[0]\<close> at line 63
  subscripts an empty vector: undefined behaviour, reached after the three calls before it.
\<close>

record shader_answer =
  new_shader :: nat
  isCompiled :: bool
  shader_infoLog :: "string option"

definition compile_and_attach_shader ::
    "shader_answer \<Rightarrow> nat \<Rightarrow> shader_type \<Rightarrow> string \<Rightarrow> call list \<times> bool outcome" where
  "compile_and_attach_shader a program type source =
     (let shader = new_shader a
      in if \<not> isCompiled a
         then (case shader_infoLog a of
                 None \<Rightarrow>
                   ([glCreateShader type shader, glShaderSource shader source,
                     glCompileShader shader],
                    undefined_behaviour)
               | Some infoLog \<Rightarrow>
                   ([glCreateShader type shader, glShaderSource shader source,
                     glCompileShader shader,
                     fprintf_stderr (''Failed to compile shader'' @ eol)]
                    @ listing 1 source
                    @ [fprintf_stderr (infoLog @ eol), fflush_stderr, glDeleteShader shader],
                    returned False))
         else ([glCreateShader type shader, glShaderSource shader source, glCompileShader shader,
                glAttachShader program shader, glDeleteShader shader],
               returned True))"

text \<open>The same for the program; the empty vector is subscripted at line 92.\<close>

record link_answer =
  isLinked :: bool
  program_infoLog :: "string option"

definition link_program :: "link_answer \<Rightarrow> nat \<Rightarrow> call list \<times> bool outcome" where
  "link_program a program =
     (if \<not> isLinked a
      then (case program_infoLog a of
              None \<Rightarrow> ([glLinkProgram program], undefined_behaviour)
            | Some infoLog \<Rightarrow>
                ([glLinkProgram program,
                  fprintf_stderr (''Failed to link program '' @ infoLog @ eol),
                  fflush_stderr],
                 returned False))
      else ([glLinkProgram program], returned True))"

subsection \<open>The frame loop (lines 237 to 312)\<close>

text \<open>The names and locations \<open>main\<close> obtained during setup and keeps for the whole run.\<close>

record handles =
  uniformWindow :: int
  uniformT :: int
  blitFBO :: nat
  renderFBO :: nat

text \<open>
  The local variables the loop reads and writes. \<open>totalFrames\<close> and \<open>frames\<close> are C++
  \<open>int\<close>s that the loop increments: 32-bit words, read by \<open>sint\<close>. (Signed overflow is
  undefined in C++; the words wrap around, and the statements about the counters below
  are made for runs that stay under \<open>2 ^ 31\<close> iterations.)
\<close>

record loop_state =
  tex :: nat
  totalFrames :: "32 word"
  frames :: "32 word"
  start :: real
  lastWidth :: int
  lastHeight :: int

definition init_state :: "real \<Rightarrow> loop_state" where
  "init_state t0 =
     \<lparr>tex = 0, totalFrames = 0, frames = 0, start = t0, lastWidth = 0, lastHeight = 0\<rparr>"

text \<open>
  What the libraries answer during one iteration: the size \<open>glfwGetFramebufferSize\<close>
  reports, the name \<open>glGenTextures\<close> would return, and the value of \<open>now()\<close> at line 301.
\<close>

record frame_input =
  fb_width :: int
  fb_height :: int
  new_texture :: nat
  clock :: real

text \<open>The body of \<open>if (lastWidth != width || lastHeight != height)\<close>, lines 259 to 278.\<close>

definition resize :: "handles \<Rightarrow> frame_input \<Rightarrow> loop_state \<Rightarrow> call list \<times> loop_state" where
  "resize h i s =
     (let width = fb_width i;
          height = fb_height i;
          t = new_texture i
      in ([printf (''rendering '' @ fmt_i (int n) @ '' bubbles at '' @ fmt_i width
                   @ '' x '' @ fmt_i height @ eol),
           glViewport 0 0 width height,
           glUniform2f (uniformWindow h) (real_of_int width) (real_of_int height),
           glDeleteTextures (tex s),
           glGenTextures t,
           glBindTexture t,
           glTexStorage2D 1 width height,
           glBindFramebuffer GL_FRAMEBUFFER (blitFBO h),
           glFramebufferTexture2D t,
           glBindFramebuffer GL_FRAMEBUFFER (renderFBO h),
           glDrawBuffers 0,
           glFramebufferParameteri GL_FRAMEBUFFER_DEFAULT_WIDTH width,
           glFramebufferParameteri GL_FRAMEBUFFER_DEFAULT_HEIGHT height,
           glBindImageTexture 0 t],
          s\<lparr>tex := t, lastWidth := width, lastHeight := height\<rparr>))"

text \<open>
  One iteration of the \<open>while\<close> loop. \<open>totalFrames++\<close> is a post-increment: the uniform
  receives the value the counter had before this iteration's increment, converted to
  \<open>float\<close> by \<open>static_cast<float>\<close>.
\<close>

definition frame :: "handles \<Rightarrow> frame_input \<Rightarrow> loop_state \<Rightarrow> call list \<times> loop_state" where
  "frame h i s =
     (let width = fb_width i;
          height = fb_height i;
          (c1, s1) = (if lastWidth s \<noteq> width \<or> lastHeight s \<noteq> height
                      then resize h i s else ([], s));
          c2 = [glBindFramebuffer GL_FRAMEBUFFER (renderFBO h),
                glUniform1f (uniformT h) (round32 (real_of_int (sint (totalFrames s1)))),
                glDrawArraysInstanced 0 4 n];
          s2 = s1\<lparr>totalFrames := totalFrames s1 + 1\<rparr>;
          c3 = [glBindFramebuffer GL_READ_FRAMEBUFFER (blitFBO h),
                glBindFramebuffer GL_DRAW_FRAMEBUFFER 0,
                glBlitFramebuffer 0 0 width height 0 0 width height,
                glfwSwapBuffers];
          s3 = s2\<lparr>frames := frames s2 + 1\<rparr>;
          end_time = clock i;
          seconds = end_time - start s3;
          (c4, s4) = (if seconds \<ge> 2
                      then ([printf_fps (real_of_int (sint (frames s3)) / seconds),
                             fflush_stdout],
                            s3\<lparr>frames := 0, start := end_time\<rparr>)
                      else ([], s3))
      in (c1 @ c2 @ c3 @ c4 @ [glfwPollEvents], s4))"

text \<open>
  The loop, for a run in which \<open>glfwWindowShouldClose\<close> answers false once per element of
  the list and then true. The calls are kept per iteration.
\<close>

fun run_loop :: "handles \<Rightarrow> frame_input list \<Rightarrow> loop_state \<Rightarrow> call list list \<times> loop_state" where
  "run_loop h [] s = ([], s)"
| "run_loop h (i # rest) s =
     (let (c, s') = frame h i s;
          (cs, s'') = run_loop h rest s'
      in (c # cs, s''))"

subsection \<open>\<open>main\<close>\<close>

text \<open>What the libraries answer during setup.\<close>

record answers =
  glfwInit_ok :: bool
  window_ok :: bool
  glad_ok :: bool
  gl_vendor :: string
  gl_renderer :: string
  gl_version :: string
  new_program :: nat
  vs_answer :: shader_answer
  fs_answer :: shader_answer
  link :: link_answer
  location_window :: int
  location_T :: int
  c_RAND_MAX :: int
  c_powf :: "real \<Rightarrow> real \<Rightarrow> real"
  rand_state :: rng
  new_buffer :: nat
  new_blitFBO :: nat
  new_renderFBO :: nat
  start_clock :: real

definition W :: int where
  "W = 2048"

definition H :: int where
  "H = 2048"

text \<open>Lines 155 to 171, up to the loading of the OpenGL entry points.\<close>

definition window_hints :: "call list" where
  "window_hints =
     [glfwWindowHint ''GLFW_CONTEXT_CREATION_API'' ''GLFW_EGL_CONTEXT_API'',
      glfwWindowHint ''GLFW_CLIENT_API'' ''GLFW_OPENGL_ES_API'',
      glfwWindowHint ''GLFW_CONTEXT_VERSION_MAJOR'' ''3'',
      glfwWindowHint ''GLFW_CONTEXT_VERSION_MINOR'' ''1'',
      glfwWindowHint ''GLFW_OPENGL_PROFILE'' ''GLFW_OPENGL_CORE_PROFILE'',
      glfwWindowHint ''GLFW_SAMPLES'' ''0'']"

text \<open>
  Lines 191 to 246: the program is made current, the bubbles are generated and uploaded,
  the three per-instance attributes are set up (a \<open>Bubble\<close> is nine floats of four bytes:
  stride 36, \<open>dx\<close> at offset 12, \<open>color\<close> at offset 20), and the two framebuffers are made.
\<close>

definition scene_setup :: "answers \<Rightarrow> call list" where
  "scene_setup a =
     [glUseProgram (new_program a),
      glGenBuffers (new_buffer a),
      glBindBuffer (new_buffer a),
      glBufferData (bubbles (c_RAND_MAX a) (c_powf a) (rand_state a)),
      glEnableVertexAttribArray 0,
      glVertexAttribPointer 0 3 False 36 0,
      glVertexAttribDivisor 0 1,
      glEnableVertexAttribArray 1,
      glVertexAttribPointer 1 2 False 36 12,
      glVertexAttribDivisor 1 1,
      glEnableVertexAttribArray 2,
      glVertexAttribPointer 2 4 True 36 20,
      glVertexAttribDivisor 2 1,
      glGenFramebuffers (new_blitFBO a),
      glGenFramebuffers (new_renderFBO a),
      glBindFramebuffer GL_FRAMEBUFFER (new_renderFBO a),
      glClearColor 0.1 0.1 0.1 0.1,
      glDisableDither]"

definition main_handles :: "answers \<Rightarrow> handles" where
  "main_handles a =
     \<lparr>uniformWindow = location_window a, uniformT = location_T a,
      blitFBO = new_blitFBO a, renderFBO = new_renderFBO a\<rparr>"

text \<open>
  \<open>main\<close>: the calls made and how it ends. The three builds of line 186 are joined by
  \<open>||\<close>, so the first failure skips the rest. Falling off the end of \<open>main\<close> returns 0.
\<close>

definition main ::
    "answers \<Rightarrow> string list \<Rightarrow> frame_input list \<Rightarrow> call list \<times> int outcome" where
  "main a argv iters =
     (let c0 = [glfwInit (select_backend argv)]
      in if \<not> glfwInit_ok a
         then (c0 @ [fprintf_stderr (''Failed to initialize glfw.'' @ eol)], returned 1)
         else
         let c1 = c0 @ window_hints @ [glfwCreateWindow W H ''Rive Bubbles'']
         in if \<not> window_ok a
            then (c1 @ [glfwTerminate, fprintf_stderr (''Failed to create window.'' @ eol)],
                  returned (- 1))
            else
            let c2 = c1 @ [glfwSetWindowTitle ''Rive Bubbles'', glfwMakeContextCurrent,
                           glfwSwapInterval 0, gladLoadGLES2Loader]
            in if \<not> glad_ok a
               then (c2 @ [fprintf_stderr (''Failed to initialize glad.'' @ eol)], returned (- 1))
               else
               let c3 = c2 @ [printf (''GL_VENDOR: '' @ gl_vendor a @ eol),
                              printf (''GL_RENDERER: '' @ gl_renderer a @ eol),
                              printf (''GL_VERSION: '' @ gl_version a @ eol),
                              fflush_stdout,
                              glCreateProgram (new_program a)];
                   program = new_program a;
                   (cv, rv) = compile_and_attach_shader (vs_answer a) program GL_VERTEX_SHADER vs
               in case rv of
                    undefined_behaviour \<Rightarrow> (c3 @ cv, undefined_behaviour)
                  | returned okv \<Rightarrow>
                    if \<not> okv then (c3 @ cv, returned (- 1))
                    else
                    let (cf, rf) =
                          compile_and_attach_shader (fs_answer a) program GL_FRAGMENT_SHADER fs
                    in case rf of
                         undefined_behaviour \<Rightarrow> (c3 @ cv @ cf, undefined_behaviour)
                       | returned okf \<Rightarrow>
                         if \<not> okf then (c3 @ cv @ cf, returned (- 1))
                         else
                         let (cl, rl) = link_program (link a) program
                         in case rl of
                              undefined_behaviour \<Rightarrow> (c3 @ cv @ cf @ cl, undefined_behaviour)
                            | returned okl \<Rightarrow>
                              if \<not> okl then (c3 @ cv @ cf @ cl, returned (- 1))
                              else
                              let (cs, s) =
                                    run_loop (main_handles a) iters (init_state (start_clock a))
                              in (c3 @ cv @ cf @ cl @ scene_setup a @ concat cs
                                  @ [glfwTerminate],
                                  returned 0))"

subsection \<open>Reading a list of calls\<close>

text \<open>What went to the error stream, in order.\<close>

fun stderr_text :: "call list \<Rightarrow> string" where
  "stderr_text [] = []"
| "stderr_text (fprintf_stderr t # cs) = t @ stderr_text cs"
| "stderr_text (c # cs) = stderr_text cs"

text \<open>The lines \<open>printf\<close> wrote with a string format (the frame rate line is not among them).\<close>

fun printed :: "call list \<Rightarrow> string list" where
  "printed [] = []"
| "printed (printf t # cs) = t # printed cs"
| "printed (c # cs) = printed cs"

fun fps_reports :: "call list \<Rightarrow> real list" where
  "fps_reports [] = []"
| "fps_reports (printf_fps v # cs) = v # fps_reports cs"
| "fps_reports (c # cs) = fps_reports cs"

fun is_draw :: "call \<Rightarrow> bool" where
  "is_draw (glDrawArraysInstanced first count instances) = True"
| "is_draw c = False"

fun is_uniform1f :: "call \<Rightarrow> bool" where
  "is_uniform1f (glUniform1f location v) = True"
| "is_uniform1f c = False"

text \<open>
  The calls of the resize branch that make or announce a render target: what touches a
  texture, the viewport, the window-size uniform, or prints the announcement.
\<close>

fun is_resize_call :: "call \<Rightarrow> bool" where
  "is_resize_call (printf t) = True"
| "is_resize_call (glViewport a b c d) = True"
| "is_resize_call (glUniform2f location v w) = True"
| "is_resize_call (glDeleteTextures t) = True"
| "is_resize_call (glGenTextures t) = True"
| "is_resize_call (glBindTexture t) = True"
| "is_resize_call (glTexStorage2D levels w h) = True"
| "is_resize_call (glFramebufferTexture2D t) = True"
| "is_resize_call (glDrawBuffers k) = True"
| "is_resize_call (glFramebufferParameteri p v) = True"
| "is_resize_call (glBindImageTexture unit t) = True"
| "is_resize_call c = False"

fun is_storage :: "call \<Rightarrow> bool" where
  "is_storage (glTexStorage2D levels w h) = True"
| "is_storage c = False"

text \<open>
  The text split into lines: each line ends at a newline or at the end of the text, and a
  text that ends with a newline has no further, empty line.
\<close>

fun lines_of :: "string \<Rightarrow> string list" where
  "lines_of [] = []"
| "lines_of (c # cs) =
     (if c = CHR 0x0A then [] # lines_of cs
      else (case lines_of cs of [] \<Rightarrow> [[c]] | t # ts \<Rightarrow> (c # t) # ts))"

text \<open>The lines, each printed as \<open>"%4i| %s\n"\<close> with consecutive numbers from \<open>l\<close> on.\<close>

fun numbered :: "int \<Rightarrow> string list \<Rightarrow> string list" where
  "numbered l [] = []"
| "numbered l (t # ts) = (fmt_4i l @ ''| '' @ t @ eol) # numbered (l + 1) ts"

subsection \<open>The render target a draw writes to\<close>

text \<open>
  To say which image a draw call stores into, the calls are read by the rules OpenGL ES 3.1
  gives them (rules of the library, not code of the repository), as far as textures and
  image unit 0 are concerned:
  \<^item> \<open>glBindTexture\<close> makes a texture the current 2D texture;
  \<^item> \<open>glTexStorage2D\<close> gives the current 2D texture its storage, and is an error that
    changes nothing when no texture is current, a dimension is less than 1, or the
    texture has storage already;
  \<^item> \<open>glBindImageTexture\<close> binds a texture to an image unit;
  \<^item> \<open>glDeleteTextures\<close> ignores the name 0; it releases another texture's storage and
    resets to 0 every binding of it;
  \<^item> a draw whose shader stores to an image unit stores into the texture bound there, and
    into nothing when that is 0 or has no storage.
\<close>

record gl_textures =
  texture_2d :: nat
  storage :: "nat \<Rightarrow> (int \<times> int) option"
  image_unit0 :: nat

definition no_textures :: gl_textures where
  "no_textures = \<lparr>texture_2d = 0, storage = (\<lambda>t. None), image_unit0 = 0\<rparr>"

fun gl_step :: "call \<Rightarrow> gl_textures \<Rightarrow> gl_textures" where
  "gl_step (glBindTexture t) g = g\<lparr>texture_2d := t\<rparr>"
| "gl_step (glTexStorage2D levels w h) g =
     (if texture_2d g = 0 \<or> w < 1 \<or> h < 1 \<or> storage g (texture_2d g) \<noteq> None then g
      else g\<lparr>storage := (storage g)(texture_2d g := Some (w, h))\<rparr>)"
| "gl_step (glBindImageTexture unit t) g = (if unit = 0 then g\<lparr>image_unit0 := t\<rparr> else g)"
| "gl_step (glDeleteTextures t) g =
     (if t = 0 then g
      else g\<lparr>texture_2d := (if texture_2d g = t then 0 else texture_2d g),
             storage := (storage g)(t := None),
             image_unit0 := (if image_unit0 g = t then 0 else image_unit0 g)\<rparr>)"
| "gl_step c g = g"

fun gl_run :: "gl_textures \<Rightarrow> call list \<Rightarrow> gl_textures" where
  "gl_run g [] = g"
| "gl_run g (c # cs) = gl_run (gl_step c g) cs"

definition image_target :: "gl_textures \<Rightarrow> (int \<times> int) option" where
  "image_target g = (if image_unit0 g = 0 then None else storage g (image_unit0 g))"

text \<open>For every draw call of the list, in order: the size of the image it stores into.\<close>

fun draw_targets :: "gl_textures \<Rightarrow> call list \<Rightarrow> (int \<times> int) option list" where
  "draw_targets g [] = []"
| "draw_targets g (c # cs) =
     (if is_draw c then image_target g # draw_targets (gl_step c g) cs
      else draw_targets (gl_step c g) cs)"

definition zero_size :: "frame_input \<Rightarrow> bool" where
  "zero_size i = (fb_width i = 0 \<and> fb_height i = 0)"

text \<open>
  What holds between the loop's variables and the textures whenever an iteration begins:
  \<open>tex\<close> is the only texture that may have storage, it is the current 2D texture and the
  one bound to image unit 0, its storage has the cached size when that size is a valid
  one, and as long as \<open>tex\<close> is 0 the cached size is still \<open>0 x 0\<close>.
\<close>

definition target_cached :: "loop_state \<Rightarrow> gl_textures \<Rightarrow> bool" where
  "target_cached s g =
     (image_unit0 g = tex s \<and> texture_2d g = tex s
      \<and> (\<forall>t. t = tex s \<or> storage g t = None)
      \<and> storage g (tex s) =
          (if tex s \<noteq> 0 \<and> 1 \<le> lastWidth s \<and> 1 \<le> lastHeight s
           then Some (lastWidth s, lastHeight s) else None)
      \<and> (if tex s = 0 then lastWidth s = 0 \<and> lastHeight s = 0 else True))"

subsection \<open>A sample run\<close>

text \<open>A generator that returns the listed results in order, and 0 from then on.\<close>

definition sample_rand :: "int list \<Rightarrow> rng" where
  "sample_rand ds i = (if i < length ds then ds ! i else 0)"

text \<open>
  Answers with which every setup step succeeds, for evaluating the model on concrete
  input: a generator that alternates between \<open>RAND_MAX\<close> and 0, no info logs, and names
  and locations as a driver might hand them out.
\<close>

definition sample_answers :: answers where
  "sample_answers =
     \<lparr>glfwInit_ok = True, window_ok = True, glad_ok = True,
      gl_vendor = ''Google Inc.'', gl_renderer = ''ANGLE'', gl_version = ''OpenGL ES 3.1'',
      new_program = 1,
      vs_answer = \<lparr>new_shader = 2, isCompiled = True, shader_infoLog = None\<rparr>,
      fs_answer = \<lparr>new_shader = 3, isCompiled = True, shader_infoLog = None\<rparr>,
      link = \<lparr>isLinked = True, program_infoLog = None\<rparr>,
      location_window = 0, location_T = 1,
      c_RAND_MAX = 32767, c_powf = powf_rounded,
      rand_state = (\<lambda>i. if even i then 32767 else 0),
      new_buffer = 1, new_blitFBO = 1, new_renderFBO = 2,
      start_clock = 0\<rparr>"

definition sample_handles :: handles where
  "sample_handles = \<lparr>uniformWindow = 0, uniformT = 1, blitFBO = 1, renderFBO = 2\<rparr>"

definition sample_input :: "int \<Rightarrow> int \<Rightarrow> nat \<Rightarrow> real \<Rightarrow> frame_input" where
  "sample_input w h t c = \<lparr>fb_width = w, fb_height = h, new_texture = t, clock = c\<rparr>"

section \<open>Properties\<close>

subsection \<open>Backend selection\<close>

lemma select_step_spec:
  "select_step h a = (case spec_flag a of None \<Rightarrow> h | Some p \<Rightarrow> p)"
  by (simp add: select_step_def spec_flag_def)

lemma map_filter_snoc:
  "List.map_filter f (xs @ [a]) = List.map_filter f xs @ (case f a of None \<Rightarrow> [] | Some p \<Rightarrow> [p])"
  by (simp add: List.map_filter_def split: option.splits)

lemma foldl_select_step:
  "foldl select_step h args =
     (case rev (List.map_filter spec_flag args) of [] \<Rightarrow> h | p # _ \<Rightarrow> p)"
proof (induction args rule: rev_induct)
  case Nil
  show ?case by (simp add: List.map_filter_simps)
next
  case (snoc a args)
  have "foldl select_step h (args @ [a]) = select_step (foldl select_step h args) a"
    by simp
  also have "\<dots> = (case spec_flag a of None \<Rightarrow> foldl select_step h args | Some p \<Rightarrow> p)"
    by (rule select_step_spec)
  finally show ?case
    by (simp add: snoc.IH map_filter_snoc split: option.splits)
qed

lemma map_filter_recognized:
  "List.map_filter f (filter (\<lambda>a. f a \<noteq> None) args) = List.map_filter f args"
  by (induction args) (auto simp: List.map_filter_simps)

lemma select_backend_spec: "select_backend (prog # args) = spec_backend args"
  by (simp add: select_backend_def spec_backend_def foldl_select_step)

text \<open>
  Claim C3. For every argument list \<open>args\<close> after the program's name, the backend in force
  when \<open>glfwInit\<close> is called is the one the specification describes: the backend named by
  the last of the flags \<open>--gl\<close>, \<open>--gles\<close>, \<open>--d3d\<close>, \<open>--vk\<close>, \<open>--mtl\<close> in the list, and
  Vulkan when the list has none. Dropping the unrecognized arguments does not change the
  result; a further argument at the end selects its backend when it is a flag and leaves
  the selection as it was otherwise; and \<open>--gl --vk --mtl\<close> selects Metal.
\<close>

theorem backend_last_flag_wins:
  "select_backend (prog # args) = spec_backend args
   \<and> select_backend (prog # filter (\<lambda>a. spec_flag a \<noteq> None) args) = select_backend (prog # args)
   \<and> select_backend (prog # args @ [a]) =
       (case spec_flag a of Some p \<Rightarrow> p | None \<Rightarrow> select_backend (prog # args))
   \<and> select_backend [] = VULKAN
   \<and> select_backend [prog] = VULKAN
   \<and> select_backend [prog, ''--gl'', ''--vk'', ''--mtl''] = METAL"
proof -
  have 1: "select_backend (prog # filter (\<lambda>a. spec_flag a \<noteq> None) args) = select_backend (prog # args)"
    by (simp only: select_backend_spec spec_backend_def map_filter_recognized)
  have 2: "select_backend (prog # args @ [a]) =
       (case spec_flag a of Some p \<Rightarrow> p | None \<Rightarrow> select_backend (prog # args))"
    by (simp add: select_backend_def select_step_spec split: option.splits)
  have 3: "select_backend [] = VULKAN" "select_backend [prog] = VULKAN"
    by (simp_all add: select_backend_def)
  have 4: "select_backend [prog, ''--gl'', ''--vk'', ''--mtl''] = METAL"
    by (simp add: select_backend_def select_step_def)
  from select_backend_spec 1 2 3 4 show ?thesis by blast
qed

subsection \<open>Rounding to binary32\<close>

lemma round_even_of_int: "round_even (of_int k) = k"
  by (simp add: round_even_def)

lemma round_even_bounds:
  "of_int (round_even v) \<le> v + 1 / 2" "v - 1 / 2 \<le> of_int (round_even v)"
  unfolding round_even_def Let_def by (auto split: if_splits) linarith+

lemma round_even_mono:
  assumes "v \<le> w"
  shows "round_even v \<le> round_even w"
proof (rule ccontr)
  assume "\<not> round_even v \<le> round_even w"
  then have gt: "round_even w + 1 \<le> round_even v" by simp
  have "of_int (round_even v) \<le> v + 1 / 2" and "w - 1 / 2 \<le> of_int (round_even w)"
    by (rule round_even_bounds)+
  with assms gt have eq: "round_even v = round_even w + 1" and vw: "v = w"
    and half: "of_int (round_even v) = v + 1 / 2" "of_int (round_even w) = w - 1 / 2"
    by (linarith, linarith, linarith, linarith)
  from gt vw show False by simp
qed

lemma round_even_minus: "round_even (- v) = - round_even v"
proof -
  define f where "f = \<lfloor>v\<rfloor>"
  have f1: "of_int f \<le> v" "v < of_int f + 1"
    unfolding f_def by linarith+
  show ?thesis
  proof (cases "v = of_int f")
    case True
    have "round_even (- v) = round_even (of_int (- f))"
      by (simp add: True)
    also have "\<dots> = - f"
      by (rule round_even_of_int)
    also have "\<dots> = - round_even v"
      by (simp add: True round_even_of_int)
    finally show ?thesis .
  next
    case False
    have fl: "\<lfloor>- v\<rfloor> = - f - 1"
      using f1 False by (intro floor_unique) simp_all
    have rv: "round_even v =
        (if v - of_int f < 1 / 2 then f
         else if 1 / 2 < v - of_int f then f + 1
         else if even f then f else f + 1)"
      by (simp add: round_even_def Let_def f_def)
    have rm: "round_even (- v) =
        (if - v - of_int (- f - 1) < 1 / 2 then - f - 1
         else if 1 / 2 < - v - of_int (- f - 1) then - f
         else if even (- f - 1) then - f - 1 else - f)"
      by (simp add: round_even_def Let_def fl)
    show ?thesis
      unfolding rv rm by auto
  qed
qed

lemma qexp_ge: "- 149 \<le> qexp v"
  by (simp add: qexp_def)

lemma qexp_minus: "qexp (- v) = qexp v"
  by (simp add: qexp_def)

lemma bitlen_mono: "k \<le> m \<Longrightarrow> bitlen k \<le> bitlen m"
  by (simp add: bitlen_def floorlog_mono nat_mono)

lemma qexp_mono:
  assumes "\<bar>v\<bar> \<le> \<bar>w\<bar>"
  shows "qexp v \<le> qexp w"
proof -
  have "\<lfloor>\<bar>v\<bar> * 2 ^ 149\<rfloor> \<le> \<lfloor>\<bar>w\<bar> * 2 ^ 149\<rfloor>"
    using assms by (intro floor_mono) simp
  then have "bitlen \<lfloor>\<bar>v\<bar> * 2 ^ 149\<rfloor> \<le> bitlen \<lfloor>\<bar>w\<bar> * 2 ^ 149\<rfloor>"
    by (rule bitlen_mono)
  then show ?thesis
    by (simp add: qexp_def)
qed

lemma powi_nat: "0 \<le> k \<Longrightarrow> (2 :: real) ^ nat k = 2 powi k"
  by (simp add: power_int_def)

lemma powi_split: "(2 :: real) powi (k + m) = 2 powi k * 2 powi m"
  by (simp add: power_int_add)

lemma powi_diff: "(2 :: real) powi (k - m) = 2 powi k / 2 powi m"
  by (simp add: power_int_diff)

lemma powi_le_D:
  assumes "(2 :: real) powi a \<le> 2 powi b"
  shows "a \<le> b"
proof (rule ccontr)
  assume "\<not> a \<le> b"
  then have "(2 :: real) powi b < 2 powi a"
    by (intro power_int_strict_increasing) simp_all
  with assms show False by simp
qed

lemma qexp_upper: "\<bar>v\<bar> < 2 powi (qexp v + 24)"
proof -
  define M where "M = \<lfloor>\<bar>v\<bar> * 2 ^ 149\<rfloor>"
  have lt: "\<bar>v\<bar> * 2 ^ 149 < of_int M + 1"
    unfolding M_def by linarith
  have q: "bitlen M - 173 \<le> qexp v" "- 149 \<le> qexp v"
    by (simp_all add: qexp_def M_def)
  show ?thesis
  proof (cases "0 < M")
    case True
    from bitlen_bounds [OF True] have "M + 1 \<le> 2 ^ nat (bitlen M)"
      by simp
    then have "real_of_int (M + 1) \<le> real_of_int (2 ^ nat (bitlen M))"
      by (rule of_int_le_iff [THEN iffD2])
    then have "of_int M + 1 \<le> (2 :: real) powi bitlen M"
      by (simp add: powi_nat bitlen_nonneg)
    with lt have "\<bar>v\<bar> * 2 powi 149 < 2 powi bitlen M"
      by simp
    then have "\<bar>v\<bar> < 2 powi bitlen M / 2 powi 149"
      by (simp add: pos_less_divide_eq)
    also have "\<dots> = 2 powi (bitlen M - 149)"
      by (simp only: powi_diff)
    also have "\<dots> \<le> 2 powi (qexp v + 24)"
      using q by (intro power_int_increasing) linarith+
    finally show ?thesis .
  next
    case False
    then have "M = 0"
      unfolding M_def by (smt (verit) abs_ge_zero zero_le_floor zero_le_mult_iff zero_le_numeral zero_le_power)
    with lt have "\<bar>v\<bar> * 2 powi 149 < 1"
      by simp
    then have "\<bar>v\<bar> < 1 / 2 powi 149"
      by (simp add: pos_less_divide_eq)
    also have "\<dots> = 2 powi (- 149)"
      by (simp add: power_int_minus_divide)
    also have "\<dots> \<le> 2 powi (qexp v + 24)"
      using q by (intro power_int_increasing) simp_all
    finally show ?thesis .
  qed
qed

lemma qexp_lower:
  assumes "- 149 < qexp v"
  shows "2 powi (qexp v + 23) \<le> \<bar>v\<bar>"
proof -
  define M where "M = \<lfloor>\<bar>v\<bar> * 2 ^ 149\<rfloor>"
  from assms have q: "qexp v = bitlen M - 173"
    by (simp add: qexp_def M_def max_def split: if_splits)
  with assms have "0 < bitlen M" by simp
  then have pos: "0 < M"
    using bitlen_eq_zero_iff [of M] by (cases "0 < M") simp_all
  have le: "of_int M \<le> \<bar>v\<bar> * 2 ^ 149"
    unfolding M_def by linarith
  from bitlen_bounds [OF pos] have "2 ^ nat (bitlen M - 1) \<le> M"
    by simp
  then have "real_of_int (2 ^ nat (bitlen M - 1)) \<le> real_of_int M"
    by (rule of_int_le_iff [THEN iffD2])
  then have "(2 :: real) powi (bitlen M - 1) \<le> of_int M"
    using \<open>0 < bitlen M\<close> by (simp add: powi_nat)
  with le have "2 powi (bitlen M - 1) \<le> \<bar>v\<bar> * 2 powi 149"
    by simp
  then have "2 powi (bitlen M - 1) / 2 powi 149 \<le> \<bar>v\<bar>"
    by (simp add: pos_divide_le_eq)
  moreover have "2 powi (bitlen M - 1) / 2 powi 149 = (2 :: real) powi (bitlen M - 1 - 149)"
    by (simp only: powi_diff)
  moreover have "bitlen M - 1 - 149 = qexp v + 23"
    by (simp add: q)
  ultimately show ?thesis by (simp only:)
qed

lemma round32_minus: "round32 (- v) = - round32 v"
  by (simp add: round32_def qexp_minus round_even_minus)

lemma round32_zero: "round32 0 = 0"
  by (simp add: round32_def round_even_def)

lemma round32_nonneg:
  assumes "0 \<le> v"
  shows "0 \<le> round32 v"
proof -
  have "0 \<le> v / 2 powi qexp v"
    using assms by simp
  then have "round_even 0 \<le> round_even (v / 2 powi qexp v)"
    by (rule round_even_mono)
  then have "0 \<le> round_even (v / 2 powi qexp v)"
    by (simp add: round_even_def)
  then show ?thesis
    by (simp add: round32_def)
qed

text \<open>The significand the rounding chooses has at most 24 bits, or is \<open>2 ^ 24\<close>.\<close>

lemma significand_bound: "\<bar>round_even (v / 2 powi qexp v)\<bar> \<le> 2 ^ 24"
proof -
  have less: "\<bar>v\<bar> < 2 powi qexp v * 2 ^ 24"
    using qexp_upper [of v] by (simp add: powi_split)
  have up: "v / 2 powi qexp v \<le> of_int (2 ^ 24)"
    using less by (simp add: pos_divide_le_eq mult.commute abs_less_iff)
  have lo: "of_int (- (2 ^ 24)) \<le> v / 2 powi qexp v"
    using less by (simp add: pos_le_divide_eq mult.commute abs_less_iff)
  from round_even_mono [OF up] round_even_mono [OF lo] show ?thesis
    by (simp only: round_even_of_int abs_le_iff) simp
qed

lemma round32_mono_nonneg:
  assumes "0 \<le> v" and "v \<le> w"
  shows "round32 v \<le> round32 w"
proof (cases "qexp v = qexp w")
  case True
  have "v / 2 powi qexp w \<le> w / 2 powi qexp w"
    using assms by (simp add: divide_right_mono)
  then have "round_even (v / 2 powi qexp w) \<le> round_even (w / 2 powi qexp w)"
    by (rule round_even_mono)
  then show ?thesis
    by (simp add: round32_def True)
next
  case False
  have "qexp v \<le> qexp w"
    using assms by (intro qexp_mono) simp
  with False have lt: "qexp v < qexp w" by simp
  have "round_even (v / 2 powi qexp v) \<le> 2 ^ 24"
    using significand_bound [of v] by simp
  then have "real_of_int (round_even (v / 2 powi qexp v)) \<le> real_of_int (2 ^ 24)"
    by (rule of_int_le_iff [THEN iffD2])
  then have "round32 v \<le> 2 ^ 24 * 2 powi qexp v"
    by (simp add: round32_def)
  also have "\<dots> = 2 powi (qexp v + 24)"
    by (simp add: powi_split)
  also have "\<dots> \<le> 2 powi (qexp w + 23)"
    using lt by (intro power_int_increasing) simp_all
  also have "\<dots> \<le> round32 w"
  proof -
    from lt qexp_ge [of v] have "- 149 < qexp w" by simp
    from qexp_lower [OF this] assms have "2 powi qexp w * 2 ^ 23 \<le> w"
      by (simp add: powi_split)
    then have "of_int (2 ^ 23) \<le> w / 2 powi qexp w"
      by (simp add: pos_le_divide_eq mult.commute)
    from round_even_mono [OF this] have "2 ^ 23 \<le> round_even (w / 2 powi qexp w)"
      by (simp only: round_even_of_int)
    then have "real_of_int (2 ^ 23) \<le> real_of_int (round_even (w / 2 powi qexp w))"
      by (rule of_int_le_iff [THEN iffD2])
    then have "2 ^ 23 * 2 powi qexp w \<le> round32 w"
      by (simp add: round32_def)
    then show ?thesis
      by (simp add: powi_split mult.commute)
  qed
  finally show ?thesis .
qed

lemma round32_mono:
  assumes "v \<le> w"
  shows "round32 v \<le> round32 w"
proof (cases "0 \<le> v")
  case True
  then show ?thesis using assms by (rule round32_mono_nonneg)
next
  case neg: False
  show ?thesis
  proof (cases "0 \<le> w")
    case True
    from neg have "0 \<le> round32 (- v)"
      by (intro round32_nonneg) simp
    with round32_nonneg [OF True] show ?thesis
      by (simp add: round32_minus)
  next
    case False
    with assms have "0 \<le> - w" and "- w \<le> - v" by simp_all
    from round32_mono_nonneg [OF this] show ?thesis
      by (simp add: round32_minus)
  qed
qed

text \<open>
  Every \<open>m * 2 ^ j\<close> with \<open>|m| \<le> 2 ^ 24\<close> and \<open>j \<ge> -149\<close> is a binary32 value: rounding
  leaves it as it is.
\<close>

lemma round32_exact:
  assumes sg: "\<bar>sg\<bar> \<le> 2 ^ 24" and j: "- 149 \<le> j"
  shows "round32 (of_int sg * 2 powi j) = of_int sg * 2 powi j"
proof -
  define v :: real where "v = of_int sg * 2 powi j"
  define q where "q = qexp v"
  have "\<exists>k. v / 2 powi q = of_int k"
  proof (cases "q \<le> j")
    case True
    have "v / 2 powi q = of_int sg * 2 powi (j - q)"
      by (simp add: v_def powi_diff)
    also have "\<dots> = of_int (sg * 2 ^ nat (j - q))"
      using True by (simp add: powi_nat)
    finally show ?thesis by blast
  next
    case False
    with j have norm: "- 149 < qexp v" by (simp add: q_def)
    have "2 powi (q + 23) \<le> \<bar>v\<bar>"
      using qexp_lower [OF norm] by (simp add: q_def)
    also have "\<bar>v\<bar> = of_int \<bar>sg\<bar> * 2 powi j"
      by (simp add: v_def abs_mult)
    also have "\<dots> \<le> of_int (2 ^ 24) * 2 powi j"
      using sg by (intro mult_right_mono) (simp_all only: of_int_le_iff, simp)
    also have "\<dots> = 2 powi (j + 24)"
      by (simp add: powi_split)
    finally have "q + 23 \<le> j + 24"
      by (rule powi_le_D)
    with False have q: "q = j + 1" by simp
    have "(2 :: real) powi (j + 24) \<le> \<bar>v\<bar>"
      using qexp_lower [OF norm] by (simp add: q_def [symmetric] q add.commute)
    then have "(2 :: real) powi j * 2 ^ 24 \<le> of_int \<bar>sg\<bar> * 2 powi j"
      by (simp add: v_def abs_mult powi_split)
    then have "(2 :: real) ^ 24 \<le> of_int \<bar>sg\<bar>"
      by (simp add: mult.commute)
    then have "real_of_int (2 ^ 24) \<le> real_of_int \<bar>sg\<bar>"
      by simp
    then have "2 ^ 24 \<le> \<bar>sg\<bar>"
      by (simp only: of_int_le_iff)
    with sg have "sg = 16777216 \<or> sg = - 16777216" by simp arith
    then have "sg = 2 * (sg div 2)"
      by auto
    then have "of_int sg = (2 :: real) * of_int (sg div 2)"
      by (metis of_int_mult of_int_numeral)
    then have "v / 2 powi q = of_int (sg div 2)"
      by (simp add: v_def q powi_split)
    then show ?thesis by blast
  qed
  then obtain k where k: "v / 2 powi q = of_int k" ..
  then have "v = of_int k * 2 powi q"
    by (simp add: nonzero_divide_eq_eq)
  moreover have "round32 v = of_int (round_even (of_int k)) * 2 powi q"
    by (simp add: round32_def q_def [symmetric] k)
  ultimately show ?thesis
    by (simp add: round_even_of_int v_def)
qed

lemma round32_int: "\<bar>sg\<bar> \<le> 2 ^ 24 \<Longrightarrow> round32 (of_int sg) = of_int sg"
  using round32_exact [of sg 0] by simp

lemma round32_scaled:
  "round32 (round32 v * 2 ^ k) = round32 v * 2 ^ k"
proof -
  define sg where "sg = round_even (v / 2 powi qexp v)"
  have "round32 v * 2 ^ k = of_int sg * 2 powi (qexp v + int k)"
    by (simp add: round32_def sg_def powi_split power_int_of_nat)
  moreover have "round32 (of_int sg * 2 powi (qexp v + int k)) = of_int sg * 2 powi (qexp v + int k)"
    using significand_bound [of v] qexp_ge [of v] by (intro round32_exact) (simp_all add: sg_def)
  ultimately show ?thesis by simp
qed

lemma round32_idem: "round32 (round32 v) = round32 v"
  using round32_scaled [of v 0] by simp

text \<open>The rounding error: half a unit in the last place of the binade.\<close>

lemma round32_error:
  assumes "\<bar>v\<bar> \<le> 2 powi k" and "- 125 \<le> k"
  shows "\<bar>round32 v - v\<bar> \<le> 2 powi (k - 25)"
proof (cases "\<bar>v\<bar> = 2 powi k")
  case True
  have one: "round32 (2 powi k) = 2 powi k"
    using round32_exact [of 1 k] assms(2) by simp
  from True have "v = 2 powi k \<or> v = - (2 powi k)"
    by (auto simp: abs_if split: if_splits)
  then have "round32 v = v"
    by (auto simp: one round32_minus)
  then show ?thesis by simp
next
  case False
  with assms have less: "\<bar>v\<bar> < 2 powi k" by simp
  have q: "qexp v \<le> k - 24"
  proof (cases "- 149 < qexp v")
    case True
    from qexp_lower [OF this] less have "(2 :: real) powi (qexp v + 23) < 2 powi k"
      by simp
    then have "qexp v + 23 < k"
      by (metis linorder_not_le power_int_increasing one_le_numeral)
    then show ?thesis by simp
  next
    case False
    with qexp_ge [of v] have "qexp v = - 149" by simp
    with assms(2) show ?thesis by simp
  qed
  define w where "w = v / 2 powi qexp v"
  have "\<bar>of_int (round_even w) - w\<bar> \<le> 1 / 2"
    using round_even_bounds [of w] by linarith
  then have "\<bar>of_int (round_even w) - w\<bar> * 2 powi qexp v \<le> 1 / 2 * 2 powi qexp v"
    by (intro mult_right_mono) simp_all
  moreover have "\<bar>of_int (round_even w) - w\<bar> * 2 powi qexp v = \<bar>round32 v - v\<bar>"
  proof -
    have "round32 v - v = (of_int (round_even w) - w) * 2 powi qexp v"
      by (simp add: round32_def w_def left_diff_distrib)
    then show ?thesis
      by (simp add: abs_mult)
  qed
  moreover have "1 / 2 * 2 powi qexp v = (2 :: real) powi (qexp v - 1)"
    by (simp add: powi_diff)
  moreover have "(2 :: real) powi (qexp v - 1) \<le> 2 powi (k - 25)"
    using q by (intro power_int_increasing) simp_all
  ultimately show ?thesis by simp
qed

lemma round32_pow2: "- 149 \<le> k \<Longrightarrow> round32 (2 powi k) = 2 powi k"
  using round32_exact [of 1 k] by simp

text \<open>The rounding error relative to the value, with the subnormal floor.\<close>

lemma round32_relative: "\<bar>round32 v - v\<bar> \<le> \<bar>v\<bar> * 2 powi (- 24) + 2 powi (- 150)"
proof -
  have up: "\<bar>v\<bar> \<le> 2 powi (qexp v + 24)"
    using qexp_upper [of v] by simp
  have "- 125 \<le> qexp v + 24"
    using qexp_ge [of v] by simp
  from round32_error [OF up this] have e: "\<bar>round32 v - v\<bar> \<le> 2 powi (qexp v - 1)"
    by (simp add: algebra_simps)
  show ?thesis
  proof (cases "qexp v = - 149")
    case True
    with e have "\<bar>round32 v - v\<bar> \<le> 2 powi (- 150)"
      by simp
    moreover have "0 \<le> \<bar>v\<bar> * 2 powi (- 24)"
      by simp
    ultimately show ?thesis
      by linarith
  next
    case False
    then have "- 149 < qexp v"
      using qexp_ge [of v] by simp
    from qexp_lower [OF this] have "2 powi (qexp v + 23) * 2 powi (- 24) \<le> \<bar>v\<bar> * 2 powi (- 24)"
      by (intro mult_right_mono) simp_all
    moreover have "(2::real) powi (qexp v + 23) * 2 powi (- 24) = 2 powi (qexp v - 1)"
      using power_int_add [of "2::real" "qexp v + 23" "- 24"] by simp
    moreover have "(0::real) \<le> 2 powi (- 150)"
      by simp
    ultimately show ?thesis
      using e by linarith
  qed
qed

text \<open>The rounding error and the magnitude of a value of at most \<open>2 ^ i * 2 ^ k\<close>.\<close>

lemma round32_error_scaled:
  assumes "\<bar>v\<bar> \<le> 2 ^ i * 2 powi k" and "- 125 \<le> k"
  shows "\<bar>round32 v - v\<bar> \<le> 2 ^ i * 2 powi (k - 25)"
    and "\<bar>round32 v\<bar> \<le> 2 ^ i * 2 powi k"
proof -
  have p: "(2::real) ^ i * 2 powi k = 2 powi (k + int i)"
    by (simp add: power_int_add mult.commute)
  have q: "(2::real) ^ i * 2 powi (k - 25) = 2 powi (k + int i - 25)"
    using power_int_add [of "2::real" "k - 25" "int i"] by (simp add: mult.commute algebra_simps)
  have v: "\<bar>v\<bar> \<le> 2 powi (k + int i)"
    using assms(1) by (simp only: p)
  have k: "- 125 \<le> k + int i"
    using assms(2) by simp
  from round32_error [OF v k] show "\<bar>round32 v - v\<bar> \<le> 2 ^ i * 2 powi (k - 25)"
    by (simp only: q)
  have r: "round32 (2 powi (k + int i)) = 2 powi (k + int i)"
    using k by (intro round32_pow2) simp
  have "round32 v \<le> round32 (2 powi (k + int i))"
    using v by (intro round32_mono) simp
  moreover have "round32 (- (2 powi (k + int i))) \<le> round32 v"
    using v by (intro round32_mono) simp
  ultimately show "\<bar>round32 v\<bar> \<le> 2 ^ i * 2 powi k"
    by (simp add: p r round32_minus abs_le_iff)
qed

lemma round32_error_1:
  assumes "\<bar>v\<bar> \<le> A" and "A = 2 powi k" and "- 125 \<le> k" and "d = 2 powi (k - 25)"
  shows "\<bar>round32 v - v\<bar> \<le> d" and "\<bar>round32 v\<bar> \<le> A"
  using round32_error_scaled [of v 0 k] assms by simp_all

lemma round32_error_2:
  assumes "\<bar>v\<bar> \<le> 2 * A" and "A = 2 powi k" and "- 125 \<le> k" and "d = 2 powi (k - 25)"
  shows "\<bar>round32 v - v\<bar> \<le> 2 * d" and "\<bar>round32 v\<bar> \<le> 2 * A"
  using round32_error_scaled [of v 1 k] assms by simp_all

lemma round32_error_4:
  assumes "\<bar>v\<bar> \<le> 4 * A" and "A = 2 powi k" and "- 125 \<le> k" and "d = 2 powi (k - 25)"
  shows "\<bar>round32 v - v\<bar> \<le> 4 * d" and "\<bar>round32 v\<bar> \<le> 4 * A"
  using round32_error_scaled [of v 2 k] assms by simp_all

lemma round32_error_8:
  assumes "\<bar>v\<bar> \<le> 8 * A" and "A = 2 powi k" and "- 125 \<le> k" and "d = 2 powi (k - 25)"
  shows "\<bar>round32 v - v\<bar> \<le> 8 * d" and "\<bar>round32 v\<bar> \<le> 8 * A"
  using round32_error_scaled [of v 3 k] assms by simp_all

lemma ulp_relation:
  assumes "A = (2::real) powi k" and "d = (2::real) powi (k - 25)"
  shows "A = 33554432 * d" and "0 < d"
proof -
  have "(2::real) powi k = 2 powi (k - 25) * 2 powi 25"
    using power_int_add [of "2::real" "k - 25" 25] by simp
  then show "A = 33554432 * d"
    using assms by (simp add: mult.commute)
  show "0 < d"
    using assms by simp
qed

subsection \<open>The position fold\<close>

lemma spec_mod_range:
  assumes "0 < m"
  shows "0 \<le> spec_mod a m" and "spec_mod a m < m"
proof -
  have "of_int \<lfloor>a / m\<rfloor> \<le> a / m" "a / m < of_int \<lfloor>a / m\<rfloor> + 1"
    by linarith+
  then have "of_int \<lfloor>a / m\<rfloor> * m \<le> a" "a < (of_int \<lfloor>a / m\<rfloor> + 1) * m"
    by (simp_all only: pos_le_divide_eq [OF assms] pos_divide_less_eq [OF assms])
  then show "0 \<le> spec_mod a m" "spec_mod a m < m"
    by (simp_all add: spec_mod_def algebra_simps)
qed

text \<open>
  The specification's fold is the distance from \<open>c - r\<close> to the nearest multiple of
  \<open>2 * span\<close>, moved up by \<open>r\<close>.
\<close>

lemma spec_wrapped_le:
  assumes "0 < s"
  shows "spec_wrapped s c a - a \<le> \<bar>c - a - 2 * s * of_int j\<bar>"
proof -
  define f where "f = spec_mod (c - a) (2 * s)"
  define j0 where "j0 = \<lfloor>(c - a) / (2 * s)\<rfloor>"
  have f: "0 \<le> f" "f < 2 * s"
    using spec_mod_range [of "2 * s" "c - a"] assms by (simp_all add: f_def)
  have z: "c - a = f + 2 * s * of_int j0"
    by (simp add: f_def j0_def spec_mod_def)
  have w: "spec_wrapped s c a - a = s - \<bar>s - f\<bar>"
    by (simp add: spec_wrapped_def f_def)
  show ?thesis
  proof (cases "j \<le> j0")
    case True
    then have "0 \<le> 2 * s * of_int (j0 - j)"
      using assms by simp
    then have "f \<le> c - a - 2 * s * of_int j"
      unfolding z by (simp add: algebra_simps)
    then show ?thesis
      unfolding w using f by linarith
  next
    case False
    then have "1 \<le> j - j0"
      by simp
    then have "(1::real) \<le> of_int (j - j0)"
      by linarith
    then have "2 * s * 1 \<le> 2 * s * of_int (j - j0)"
      using assms by (intro mult_left_mono) simp_all
    then have "2 * s - f \<le> - (c - a - 2 * s * of_int j)"
      unfolding z by (simp add: algebra_simps)
    then show ?thesis
      unfolding w using f by linarith
  qed
qed

lemma spec_wrapped_attained:
  assumes "0 < s"
  shows "\<exists>j. spec_wrapped s c a - a = \<bar>c - a - 2 * s * of_int j\<bar>"
proof -
  define f where "f = spec_mod (c - a) (2 * s)"
  define j0 where "j0 = \<lfloor>(c - a) / (2 * s)\<rfloor>"
  have f: "0 \<le> f" "f < 2 * s"
    using spec_mod_range [of "2 * s" "c - a"] assms by (simp_all add: f_def)
  have z: "c - a = f + 2 * s * of_int j0"
    by (simp add: f_def j0_def spec_mod_def)
  have w: "spec_wrapped s c a - a = s - \<bar>s - f\<bar>"
    by (simp add: spec_wrapped_def f_def)
  show ?thesis
  proof (cases "f \<le> s")
    case True
    then have "spec_wrapped s c a - a = \<bar>c - a - 2 * s * of_int j0\<bar>"
      unfolding w z using f by simp
    then show ?thesis ..
  next
    case False
    then have "spec_wrapped s c a - a = \<bar>c - a - 2 * s * of_int (j0 + 1)\<bar>"
      unfolding w z using f by (simp add: algebra_simps)
    then show ?thesis ..
  qed
qed

lemma spec_wrapped_nonneg:
  assumes "0 < s"
  shows "a \<le> spec_wrapped s c a"
  using spec_wrapped_attained [OF assms, of c a] by auto

lemma spec_wrapped_upper:
  assumes "0 < s"
  shows "spec_wrapped s c a \<le> s + a"
  by (simp add: spec_wrapped_def)

text \<open>It moves no faster than the centre.\<close>

lemma spec_wrapped_lipschitz_aux:
  assumes "0 < s"
  shows "spec_wrapped s c a - a \<le> spec_wrapped s c' a' - a' + \<bar>(c - a) - (c' - a')\<bar>"
proof -
  from spec_wrapped_attained [OF assms, of c' a'] obtain j
    where j: "spec_wrapped s c' a' - a' = \<bar>c' - a' - 2 * s * of_int j\<bar>" ..
  have "spec_wrapped s c a - a \<le> \<bar>c - a - 2 * s * of_int j\<bar>"
    by (rule spec_wrapped_le [OF assms])
  also have "\<dots> \<le> \<bar>c' - a' - 2 * s * of_int j\<bar> + \<bar>(c - a) - (c' - a')\<bar>"
    by linarith
  finally show ?thesis
    by (simp add: j)
qed

lemma spec_wrapped_lipschitz:
  assumes "0 < s"
  shows "\<bar>(spec_wrapped s c a - a) - (spec_wrapped s c' a' - a')\<bar> \<le> \<bar>(c - a) - (c' - a')\<bar>"
  using spec_wrapped_lipschitz_aux [OF assms, of c a c' a']
    spec_wrapped_lipschitz_aux [OF assms, of c' a' c a]
  by linarith

text \<open>It is periodic in the centre, with period \<open>2 * span\<close>.\<close>

lemma spec_wrapped_shift:
  assumes "0 < s"
  shows "spec_wrapped s (c + 2 * s * of_int j) a = spec_wrapped s c a"
proof -
  have "(c + 2 * s * of_int j - a) / (2 * s) = (c - a) / (2 * s) + of_int j"
    using assms by (simp add: field_simps)
  then have "\<lfloor>(c + 2 * s * of_int j - a) / (2 * s)\<rfloor> = \<lfloor>(c - a) / (2 * s)\<rfloor> + j"
    by simp
  then have "spec_mod (c + 2 * s * of_int j - a) (2 * s) = spec_mod (c - a) (2 * s)"
    by (simp add: spec_mod_def algebra_simps)
  then show ?thesis
    by (simp add: spec_wrapped_def)
qed

text \<open>
  Folding without reducing first: right on \<open>[0, 2 * span]\<close>, and off by twice the
  excess outside it.
\<close>

lemma fold_unreduced:
  assumes "0 < s" and "0 \<le> e" and "- e \<le> z" and "z \<le> 2 * s + e"
  shows "\<bar>(s - \<bar>s - z\<bar>) - (spec_wrapped s z 0 - 0)\<bar> \<le> 2 * e"
proof -
  consider "z < 0" | "0 \<le> z" "z < 2 * s" | "2 * s \<le> z"
    by linarith
  then show ?thesis
  proof cases
    case 1
    have "spec_wrapped s z 0 - 0 \<le> \<bar>z - 0 - 2 * s * of_int 0\<bar>"
      by (rule spec_wrapped_le [OF assms(1)])
    moreover have "0 \<le> spec_wrapped s z 0"
      using spec_wrapped_nonneg [OF assms(1), of 0 z] by simp
    ultimately show ?thesis
      using 1 assms by (simp; linarith?)
  next
    case 2
    then have "\<lfloor>z / (2 * s)\<rfloor> = 0"
      using assms(1) by (intro floor_unique) (simp_all add: field_simps)
    then show ?thesis
      using assms(2) by (simp add: spec_wrapped_def spec_mod_def)
  next
    case 3
    have "spec_wrapped s z 0 - 0 \<le> \<bar>z - 0 - 2 * s * of_int 1\<bar>"
      by (rule spec_wrapped_le [OF assms(1)])
    moreover have "0 \<le> spec_wrapped s z 0"
      using spec_wrapped_nonneg [OF assms(1), of 0 z] by simp
    ultimately show ?thesis
      using 3 assms by (simp; linarith?)
  qed
qed

text \<open>
  What \<open>mod\<close>, rounded operation by operation, returns: up to \<open>12\<close> units the dividend
  less a multiple of the modulus, a number within \<open>9\<close> units of \<open>[0, modulus]\<close>; the unit
  is half a unit in the last place at \<open>2 ^ k\<close>, for a dividend of at most \<open>4 * 2 ^ k\<close> and
  a modulus of at most \<open>2 * 2 ^ k\<close>.
\<close>

lemma glsl_mod32_accuracy:
  assumes M: "0 < M" "M \<le> 2 * A" and z: "\<bar>z\<bar> \<le> 4 * A"
    and A: "A = 2 powi k" and k: "- 125 \<le> k" and d: "d = 2 powi (k - 25)"
  shows "\<exists>j. - (9 * d) \<le> z - M * of_int j \<and> z - M * of_int j \<le> M + 9 * d
             \<and> \<bar>glsl_mod32 z M - (z - M * of_int j)\<bar> \<le> 12 * d"
proof -
  note u = ulp_relation [OF A d]
  define q where "q = round32 (z / M)"
  define j where "j = \<lfloor>q\<rfloor>"
  define eq where "eq = \<bar>z / M\<bar> * 2 powi (- 24) + 2 powi (- 150)"
  define pk where "pk = round32 (M * of_int j)"
  have q: "\<bar>q - z / M\<bar> \<le> eq"
    unfolding q_def eq_def by (rule round32_relative)
  have j: "of_int j \<le> q" "q < of_int j + 1"
    unfolding j_def by linarith+
  have "2 * (2::real) powi (- 150) \<le> 1 / 33554432"
    by (simp add: power_int_minus)
  then have "A * (2 * 2 powi (- 150)) \<le> A * (1 / 33554432)"
    using u by (intro mult_left_mono) simp_all
  then have tiny: "2 * A * 2 powi (- 150) \<le> d"
    by (simp add: u(1))
  have "M * eq = \<bar>z\<bar> * 2 powi (- 24) + M * 2 powi (- 150)"
    using M(1) by (simp add: eq_def algebra_simps)
  moreover have "\<bar>z\<bar> * 2 powi (- 24) \<le> 4 * A * 2 powi (- 24)"
    using z by (intro mult_right_mono) simp_all
  moreover have "M * 2 powi (- 150) \<le> 2 * A * 2 powi (- 150)"
    using M(2) by (intro mult_right_mono) simp_all
  moreover have "4 * A * 2 powi (- 24) = 8 * d"
    by (simp add: u(1) power_int_minus)
  ultimately have Meq: "M * eq \<le> 9 * d"
    using tiny by linarith
  have zM: "M * (z / M - of_int j) = z - M * of_int j"
    using M(1) by (simp add: right_diff_distrib)
  have "- eq \<le> z / M - of_int j"
    using q j by linarith
  then have "M * (- eq) \<le> M * (z / M - of_int j)"
    using M(1) by (intro mult_left_mono) simp_all
  then have lo: "- (9 * d) \<le> z - M * of_int j"
    unfolding zM using Meq by simp
  have "z / M - of_int j \<le> 1 + eq"
    using q j by linarith
  then have "M * (z / M - of_int j) \<le> M * (1 + eq)"
    using M(1) by (intro mult_left_mono) simp_all
  then have hi: "z - M * of_int j \<le> M + 9 * d"
    unfolding zM using Meq by (simp add: distrib_left)
  have "\<bar>M * of_int j\<bar> \<le> 8 * A"
    using lo hi z M(2) u by linarith
  from round32_error_8 [OF this A k d] have pk: "\<bar>pk - M * of_int j\<bar> \<le> 8 * d"
    by (simp add: pk_def)
  have "\<bar>z - pk\<bar> \<le> 4 * A"
    using lo hi pk M(2) u by linarith
  from round32_error_4 [OF this A k d] have "\<bar>round32 (z - pk) - (z - pk)\<bar> \<le> 4 * d"
    by simp
  moreover have "glsl_mod32 z M = round32 (z - pk)"
    by (simp add: glsl_mod32_def pk_def j_def q_def)
  ultimately have "\<bar>glsl_mod32 z M - (z - M * of_int j)\<bar> \<le> 12 * d"
    using pk by linarith
  with lo hi show ?thesis
    by blast
qed

text \<open>
  The folded centre the shader computes and the specification's, in a window whose
  span (as the shader computes it) is positive: they differ by at most \<open>45\<close> half units
  in the last place at \<open>2 ^ k\<close>, when the position, the distance travelled, the radius
  and the window extent are at most \<open>2 ^ k\<close>.
\<close>

lemma fold_axis_accuracy:
  assumes pos: "0 < span_axis window a"
    and a: "0 \<le> a" "a \<le> 2 powi k" and b: "\<bar>bubble\<bar> \<le> 2 powi k"
    and t: "\<bar>speed * T\<bar> \<le> 2 powi k" and w: "window \<le> 2 powi k" and k: "- 125 \<le> k"
  shows "\<bar>fold_axis glsl_mod32 window T bubble speed a
          - spec_wrapped (span_axis window a) (bubble + speed * T) a\<bar> \<le> 2 powi (k - 19)"
proof -
  define A :: real where "A = 2 powi k"
  define d :: real where "d = 2 powi (k - 25)"
  note u = ulp_relation [OF A_def d_def]
  define S where "S = span_axis window a"
  define p where "p = round32 (speed * T)"
  define c where "c = round32 (bubble + p)"
  define z where "z = round32 (c - a)"
  define M where "M = round32 (S * 2)"
  define m where "m = glsl_mod32 z M"
  define dd where "dd = round32 (S - m)"
  define g where "g = round32 (S - \<bar>dd\<bar>)"
  have F: "fold_axis glsl_mod32 window T bubble speed a = round32 (g + a)"
    by (simp add: fold_axis_def mod_axis_def Let_def S_def p_def c_def z_def M_def m_def
        dd_def g_def)
  have S0: "0 < S"
    using pos by (simp add: S_def)
  have "0 \<le> round32 (2 * a)"
    using a(1) by (intro round32_nonneg) simp
  then have "round32 (window - round32 (2 * a)) \<le> round32 (2 powi k)"
    using w by (intro round32_mono) simp
  then have S1: "S \<le> A"
    using k by (simp add: S_def span_axis_def A_def round32_pow2)
  have M: "M = 2 * S"
    using round32_scaled [of "window - round32 (2 * a)" 1]
    by (simp add: M_def S_def span_axis_def mult.commute)
  have "\<bar>speed * T\<bar> \<le> A"
    using t by (simp add: A_def)
  note ep = round32_error_1 [OF this A_def k d_def, folded p_def]
  have "\<bar>bubble + p\<bar> \<le> 2 * A"
    using b ep(2) by (simp add: A_def)
  note ec = round32_error_2 [OF this A_def k d_def, folded c_def]
  have "\<bar>c - a\<bar> \<le> 4 * A"
    using a ec(2) u by (simp add: A_def)
  note ez = round32_error_4 [OF this A_def k d_def, folded z_def]
  have zc: "\<bar>z - (bubble + speed * T - a)\<bar> \<le> 7 * d"
    using ep(1) ec(1) ez(1) by linarith
  have "0 < M" "M \<le> 2 * A"
    using S0 S1 by (simp_all add: M)
  from glsl_mod32_accuracy [OF this ez(2) A_def k d_def] obtain j
    where j: "- (9 * d) \<le> z - M * of_int j" "z - M * of_int j \<le> M + 9 * d"
      "\<bar>m - (z - M * of_int j)\<bar> \<le> 12 * d"
    unfolding m_def by blast
  define m' where "m' = z - M * of_int j"
  have "\<bar>S - m\<bar> \<le> 2 * A"
    using j S0 S1 u unfolding M by linarith
  note ed = round32_error_2 [OF this A_def k d_def, folded dd_def]
  have "\<bar>S - \<bar>dd\<bar>\<bar> \<le> 2 * A"
    using ed(2) S0 S1 by linarith
  note eg = round32_error_2 [OF this A_def k d_def, folded g_def]
  have "\<bar>g + a\<bar> \<le> 4 * A"
    using eg(2) a u by (simp add: A_def)
  note eF = round32_error_4 [OF this A_def k d_def]
  have 1: "\<bar>round32 (g + a) - (S - \<bar>S - m\<bar> + a)\<bar> \<le> 8 * d"
    using eF(1) eg(1) ed(1) by linarith
  have 2: "\<bar>(S - \<bar>S - m\<bar>) - (S - \<bar>S - m'\<bar>)\<bar> \<le> 12 * d"
    using j(3) unfolding m'_def by linarith
  have "0 \<le> 9 * d"
    using u by simp
  from fold_unreduced [OF S0 this, of m'] j(1,2)
  have 3: "\<bar>(S - \<bar>S - m'\<bar>) - (spec_wrapped S m' 0 - 0)\<bar> \<le> 18 * d"
    unfolding m'_def M by simp
  have "spec_wrapped S (z + 2 * S * of_int (- j)) 0 = spec_wrapped S z 0"
    by (rule spec_wrapped_shift [OF S0])
  then have 4: "spec_wrapped S m' 0 = spec_wrapped S z 0"
    by (simp add: m'_def M)
  from spec_wrapped_lipschitz [OF S0, of z 0 "bubble + speed * T" a]
  have 5: "\<bar>(spec_wrapped S z 0 - 0) - (spec_wrapped S (bubble + speed * T) a - a)\<bar> \<le> 7 * d"
    using zc by simp
  have "\<bar>round32 (g + a) - spec_wrapped S (bubble + speed * T) a\<bar> \<le> 45 * d"
    using 1 2 3 5 unfolding 4 by linarith
  moreover have "(2::real) powi (k - 19) = 2 powi (k - 25) * 2 powi 6"
    using power_int_add [of "2::real" "k - 25" 6] by simp
  then have "45 * d \<le> 2 powi (k - 19)"
    using u(2) by (simp add: d_def)
  ultimately show ?thesis
    unfolding F S_def by linarith
qed

lemma round32_twice: "round32 v = v \<Longrightarrow> round32 (2 * v) = 2 * v"
  using round32_scaled [of v 1] by (simp add: mult.commute)

lemma span_axis_float: "round32 (span_axis window a) = span_axis window a"
  by (simp add: span_axis_def round32_idem)

text \<open>Whatever \<open>mod\<close> returns, the fold stays below the rounded \<open>span + r\<close>.\<close>

lemma fold_axis_upper:
  "fold_axis md window T bubble speed a \<le> round32 (span_axis window a + a)"
proof -
  let ?s = "span_axis window a"
  let ?m = "mod_axis md window T bubble speed a"
  have "?s - \<bar>round32 (?s - ?m)\<bar> \<le> ?s"
    by simp
  then have "round32 (?s - \<bar>round32 (?s - ?m)\<bar>) \<le> round32 ?s"
    by (rule round32_mono)
  then have "round32 (?s - \<bar>round32 (?s - ?m)\<bar>) + a \<le> ?s + a"
    by (simp add: span_axis_float)
  then show ?thesis
    unfolding fold_axis_def Let_def by (rule round32_mono)
qed

text \<open>The rounded \<open>span + r\<close> is \<open>window - r\<close> up to two roundings.\<close>

lemma span_plus_radius:
  assumes "round32 a = a" and "0 \<le> a" and "2 * a \<le> window" and "window \<le> 2 powi k"
    and "- 125 \<le> k"
  shows "round32 (span_axis window a + a) \<le> window - a + 3 * 2 powi (k - 25)"
proof -
  let ?s = "span_axis window a"
  have s: "?s = round32 (window - 2 * a)"
    by (simp add: span_axis_def round32_twice [OF assms(1)])
  have "\<bar>window - 2 * a\<bar> \<le> 2 powi k"
    using assms(2-4) by simp
  from round32_error [OF this assms(5)] have e1: "?s \<le> window - 2 * a + 2 powi (k - 25)"
    unfolding s by linarith
  have "round32 0 \<le> round32 (window - 2 * a)"
    using assms(3) by (intro round32_mono) simp
  then have s0: "0 \<le> ?s"
    by (simp add: s round32_zero)
  have "round32 (window - 2 * a) \<le> round32 (2 powi k)"
    using assms(2,4) by (intro round32_mono) simp
  then have s1: "?s \<le> 2 powi k"
    using assms(5) by (simp add: s round32_pow2)
  have k1: "(2::real) powi (k + 1) = 2 * 2 powi k"
    by (simp add: power_int_add)
  have k24: "(2::real) powi (k + 1 - 25) = 2 * 2 powi (k - 25)"
    using power_int_add [of "2::real" "k - 25" 1] by (simp add: algebra_simps)
  have "a \<le> 2 powi k"
    using assms(2-4) by simp
  then have "\<bar>?s + a\<bar> \<le> 2 powi (k + 1)"
    using s0 s1 assms(2) by (simp add: k1)
  from round32_error [OF this] assms(5)
  have "round32 (?s + a) \<le> ?s + a + 2 * 2 powi (k - 25)"
    unfolding k24 by linarith
  with e1 show ?thesis
    by linarith
qed

text \<open>When \<open>mod\<close> returns a value in \<open>[0, 2 * span]\<close>, the fold stays above \<open>r\<close>.\<close>

lemma fold_axis_lower:
  assumes "round32 a = a" and "0 \<le> mod_axis md window T bubble speed a"
    and "mod_axis md window T bubble speed a \<le> 2 * span_axis window a"
  shows "a \<le> fold_axis md window T bubble speed a"
proof -
  let ?s = "span_axis window a"
  let ?m = "mod_axis md window T bubble speed a"
  have "round32 (?s - ?m) \<le> round32 ?s"
    using assms(2) by (intro round32_mono) simp
  moreover have "round32 (- ?s) \<le> round32 (?s - ?m)"
    using assms(3) by (intro round32_mono) simp
  ultimately have "\<bar>round32 (?s - ?m)\<bar> \<le> ?s"
    by (simp add: round32_minus span_axis_float abs_le_iff)
  then have "0 \<le> round32 (?s - \<bar>round32 (?s - ?m)\<bar>)"
    by (intro round32_nonneg) simp
  then have "round32 a \<le> round32 (round32 (?s - \<bar>round32 (?s - ?m)\<bar>) + a)"
    by (intro round32_mono) simp
  then show ?thesis
    by (simp add: fold_axis_def Let_def assms(1))
qed

text \<open>With \<open>mod\<close> rounded operation by operation, the fold stays above \<open>r\<close> up to the tolerance.\<close>

lemma fold_axis_lower_tolerance:
  assumes "0 < span_axis window a"
    and "0 \<le> a" "a \<le> 2 powi k" and "\<bar>bubble\<bar> \<le> 2 powi k"
    and "\<bar>speed * T\<bar> \<le> 2 powi k" and "window \<le> 2 powi k" and "- 125 \<le> k"
  shows "a - 2 powi (k - 19) \<le> fold_axis glsl_mod32 window T bubble speed a"
  using fold_axis_accuracy [OF assms]
    spec_wrapped_nonneg [OF assms(1), of a "bubble + speed * T"]
  by linarith

text \<open>
  Claim C1, as the code has it. For a radius \<open>r \<ge> 0\<close> that is a binary32 value, a window
  of extents at least \<open>2 * r\<close> in which the shader's \<open>span\<close> is positive, and a position,
  a distance travelled \<open>|speed * T|\<close>, a radius and window extents of at most \<open>2 ^ k\<close>: on
  each axis the folded centre is at most the rounded \<open>span + r\<close>, which is at most
  \<open>window - r + 3 * 2 ^ (k - 25)\<close>, whatever the shader's \<open>mod\<close> returns; it is at least
  \<open>r\<close> when the value \<open>mod\<close> returned on that axis lies in \<open>[0, 2 * span]\<close>; and it is at
  least \<open>r - 2 ^ (k - 19)\<close> when \<open>mod\<close> is \<open>x - y * floor(x / y)\<close> with every operation
  rounded to binary32.
\<close>

theorem fold_within_window:
  assumes "round32 a = a" and "0 \<le> a" and "a \<le> 2 powi k"
    and "2 * a \<le> fst window" and "2 * a \<le> snd window"
    and "0 < span_axis (fst window) a" and "0 < span_axis (snd window) a"
    and "fst window \<le> 2 powi k" and "snd window \<le> 2 powi k"
    and "\<bar>fst bubble_xy\<bar> \<le> 2 powi k" and "\<bar>snd bubble_xy\<bar> \<le> 2 powi k"
    and "\<bar>fst speed * T\<bar> \<le> 2 powi k" and "\<bar>snd speed * T\<bar> \<le> 2 powi k"
    and "- 125 \<le> k"
  shows "fst (vs_center md window T bubble_xy speed a)
           \<le> round32 (span_axis (fst window) a + a)
       \<and> round32 (span_axis (fst window) a + a) \<le> fst window - a + 3 * 2 powi (k - 25)
       \<and> snd (vs_center md window T bubble_xy speed a)
           \<le> round32 (span_axis (snd window) a + a)
       \<and> round32 (span_axis (snd window) a + a) \<le> snd window - a + 3 * 2 powi (k - 25)
       \<and> (0 \<le> mod_axis md (fst window) T (fst bubble_xy) (fst speed) a
          \<and> mod_axis md (fst window) T (fst bubble_xy) (fst speed) a
              \<le> 2 * span_axis (fst window) a
          \<longrightarrow> a \<le> fst (vs_center md window T bubble_xy speed a))
       \<and> (0 \<le> mod_axis md (snd window) T (snd bubble_xy) (snd speed) a
          \<and> mod_axis md (snd window) T (snd bubble_xy) (snd speed) a
              \<le> 2 * span_axis (snd window) a
          \<longrightarrow> a \<le> snd (vs_center md window T bubble_xy speed a))
       \<and> a - 2 powi (k - 19) \<le> fst (vs_center glsl_mod32 window T bubble_xy speed a)
       \<and> a - 2 powi (k - 19) \<le> snd (vs_center glsl_mod32 window T bubble_xy speed a)"
proof (intro conjI impI)
  show "fst (vs_center md window T bubble_xy speed a) \<le> round32 (span_axis (fst window) a + a)"
    "snd (vs_center md window T bubble_xy speed a) \<le> round32 (span_axis (snd window) a + a)"
    by (simp_all add: vs_center_def fold_axis_upper)
  show "round32 (span_axis (fst window) a + a) \<le> fst window - a + 3 * 2 powi (k - 25)"
    by (rule span_plus_radius [OF assms(1,2,4,8,14)])
  show "round32 (span_axis (snd window) a + a) \<le> snd window - a + 3 * 2 powi (k - 25)"
    by (rule span_plus_radius [OF assms(1,2,5,9,14)])
  show "a - 2 powi (k - 19) \<le> fst (vs_center glsl_mod32 window T bubble_xy speed a)"
    using fold_axis_lower_tolerance [OF assms(6,2,3,10,12,8,14)] by (simp add: vs_center_def)
  show "a - 2 powi (k - 19) \<le> snd (vs_center glsl_mod32 window T bubble_xy speed a)"
    using fold_axis_lower_tolerance [OF assms(7,2,3,11,13,9,14)] by (simp add: vs_center_def)
next
  assume "0 \<le> mod_axis md (fst window) T (fst bubble_xy) (fst speed) a
      \<and> mod_axis md (fst window) T (fst bubble_xy) (fst speed) a \<le> 2 * span_axis (fst window) a"
  then show "a \<le> fst (vs_center md window T bubble_xy speed a)"
    using fold_axis_lower [OF assms(1)] by (simp add: vs_center_def)
next
  assume "0 \<le> mod_axis md (snd window) T (snd bubble_xy) (snd speed) a
      \<and> mod_axis md (snd window) T (snd bubble_xy) (snd speed) a \<le> 2 * span_axis (snd window) a"
  then show "a \<le> snd (vs_center md window T bubble_xy speed a)"
    using fold_axis_lower [OF assms(1)] by (simp add: vs_center_def)
qed

text \<open>
  An instance in a window of 2048 by 1024 at \<open>T = 100\<close>, with \<open>k = 12\<close>: both values of
  \<open>mod\<close> lie in \<open>[0, 2 * span]\<close>.
\<close>

theorem fold_within_window_witness:
  "fst (vs_center glsl_mod32 (2048, 1024) 100 (14358677 / 8192, 5033165 / 16384)
         (- (13640423 / 2097152), 13421773 / 2097152) (3399707 / 32768))
     \<le> 2048 - 3399707 / 32768 + 3 * 2 powi (12 - 25)
   \<and> snd (vs_center glsl_mod32 (2048, 1024) 100 (14358677 / 8192, 5033165 / 16384)
         (- (13640423 / 2097152), 13421773 / 2097152) (3399707 / 32768))
     \<le> 1024 - 3399707 / 32768 + 3 * 2 powi (12 - 25)
   \<and> 3399707 / 32768
     \<le> fst (vs_center glsl_mod32 (2048, 1024) 100 (14358677 / 8192, 5033165 / 16384)
         (- (13640423 / 2097152), 13421773 / 2097152) (3399707 / 32768))
   \<and> 3399707 / 32768
     \<le> snd (vs_center glsl_mod32 (2048, 1024) 100 (14358677 / 8192, 5033165 / 16384)
         (- (13640423 / 2097152), 13421773 / 2097152) (3399707 / 32768))"
proof -
  have s: "span_axis 2048 (3399707 / 32768) = 7538681 / 4096"
      "span_axis 1024 (3399707 / 32768) = 13377509 / 16384"
    by code_simp+
  have a: "round32 (3399707 / 32768) = 3399707 / 32768"
    by code_simp
  have b: "(0::real) \<le> 3399707 / 32768"
      "(3399707 / 32768 :: real) \<le> 2 powi 12"
      "2 * (3399707 / 32768) \<le> fst (2048 :: real, 1024 :: real)"
      "2 * (3399707 / 32768) \<le> snd (2048 :: real, 1024 :: real)"
      "0 < span_axis (fst (2048 :: real, 1024 :: real)) (3399707 / 32768)"
      "0 < span_axis (snd (2048 :: real, 1024 :: real)) (3399707 / 32768)"
      "fst (2048 :: real, 1024 :: real) \<le> 2 powi 12"
      "snd (2048 :: real, 1024 :: real) \<le> 2 powi 12"
      "\<bar>fst (14358677 / 8192 :: real, 5033165 / 16384 :: real)\<bar> \<le> 2 powi 12"
      "\<bar>snd (14358677 / 8192 :: real, 5033165 / 16384 :: real)\<bar> \<le> 2 powi 12"
      "\<bar>fst (- (13640423 / 2097152) :: real, 13421773 / 2097152 :: real) * 100\<bar> \<le> 2 powi 12"
      "\<bar>snd (- (13640423 / 2097152) :: real, 13421773 / 2097152 :: real) * 100\<bar> \<le> 2 powi 12"
      "- 125 \<le> (12::int)"
    by (simp_all add: s)
  have mx: "mod_axis glsl_mod32 2048 100 (14358677 / 8192) (- (13640423 / 2097152))
      (3399707 / 32768) = 2045115 / 2048"
    by code_simp
  have my: "mod_axis glsl_mod32 1024 100 (5033165 / 16384) (13421773 / 2097152)
      (3399707 / 32768) = 215923 / 256"
    by code_simp
  from fold_within_window [OF a b, of glsl_mod32]
  show ?thesis
    by (simp add: mx my s)
qed

text \<open>
  The claim as stated fails. In a window 2048 wide, at \<open>T = 40435\<close>, a bubble at
  \<open>14358677 / 8192\<close> with speed \<open>- 13640423 / 2097152\<close> and radius \<open>3399707 / 32768\<close> (all
  binary32 values): \<open>mod\<close>, every operation of its definition rounded to binary32, returns
  \<open>- 1 / 64\<close>, and the folded centre is \<open>r - 1 / 64\<close>, below \<open>r\<close>.
\<close>

theorem fold_within_window_counterexample:
  "mod_axis glsl_mod32 2048 40435 (14358677 / 8192) (- (13640423 / 2097152)) (3399707 / 32768)
     = - (1 / 64)
   \<and> fold_axis glsl_mod32 2048 40435 (14358677 / 8192) (- (13640423 / 2097152))
       (3399707 / 32768) = 3399707 / 32768 - 1 / 64
   \<and> fold_axis glsl_mod32 2048 40435 (14358677 / 8192) (- (13640423 / 2097152))
       (3399707 / 32768) < 3399707 / 32768
   \<and> round32 (14358677 / 8192) = 14358677 / 8192
   \<and> round32 (- (13640423 / 2097152)) = - (13640423 / 2097152)
   \<and> round32 (3399707 / 32768) = 3399707 / 32768
   \<and> round32 40435 = 40435"
proof -
  have m: "mod_axis glsl_mod32 2048 40435 (14358677 / 8192) (- (13640423 / 2097152))
      (3399707 / 32768) = - (1 / 64)"
    by code_simp
  have s: "span_axis 2048 (3399707 / 32768) = 7538681 / 4096"
    by code_simp
  have "round32 (round32 (7538681 / 4096 - \<bar>round32 (7538681 / 4096 - - (1 / 64))\<bar>)
      + 3399707 / 32768) = 3399707 / 32768 - 1 / 64"
    by code_simp
  then have f: "fold_axis glsl_mod32 2048 40435 (14358677 / 8192) (- (13640423 / 2097152))
       (3399707 / 32768) = 3399707 / 32768 - 1 / 64"
    by (simp only: fold_axis_def Let_def m s)
  have v: "round32 (14358677 / 8192) = 14358677 / 8192"
    "round32 (- (13640423 / 2097152)) = - (13640423 / 2097152)"
    "round32 (3399707 / 32768) = 3399707 / 32768"
    "round32 40435 = 40435"
    by code_simp+
  have "fold_axis glsl_mod32 2048 40435 (14358677 / 8192) (- (13640423 / 2097152))
       (3399707 / 32768) < 3399707 / 32768"
    unfolding f by simp
  with m f v show ?thesis
    by (intro conjI)
qed

text \<open>
  Claim C2, as the code has it. On an axis with speed \<open>v \<noteq> 0\<close> where the shader's \<open>span\<close>
  is positive, let \<open>T' = T + 2 * span / |v|\<close>. The specification's fold, in exact
  arithmetic, takes the same value at \<open>T\<close> and \<open>T'\<close>. The shader's fold, with \<open>mod\<close> as
  \<open>x - y * floor(x / y)\<close> and every operation rounded to binary32, takes values at \<open>T\<close> and
  \<open>T'\<close> that differ by at most \<open>2 ^ (k - 18)\<close>, when the position, the distances travelled
  \<open>|v * T|\<close> and \<open>|v * T'|\<close>, the radius and the window extent are at most \<open>2 ^ k\<close>.
\<close>

theorem fold_periodic:
  assumes "0 < span_axis window a" and "speed \<noteq> 0"
    and "T' = T + 2 * span_axis window a / \<bar>speed\<bar>"
    and "0 \<le> a" and "a \<le> 2 powi k" and "\<bar>bubble\<bar> \<le> 2 powi k"
    and "\<bar>speed * T\<bar> \<le> 2 powi k" and "\<bar>speed * T'\<bar> \<le> 2 powi k"
    and "window \<le> 2 powi k" and "- 125 \<le> k"
  shows "spec_wrapped (span_axis window a) (bubble + speed * T') a
           = spec_wrapped (span_axis window a) (bubble + speed * T) a
       \<and> \<bar>fold_axis glsl_mod32 window T' bubble speed a
           - fold_axis glsl_mod32 window T bubble speed a\<bar> \<le> 2 powi (k - 18)"
proof
  let ?s = "span_axis window a"
  have "speed * T' = speed * T + 2 * ?s * (speed / \<bar>speed\<bar>)"
    by (simp add: assms(3) algebra_simps)
  moreover have "speed / \<bar>speed\<bar> = of_int (sgn (if 0 < speed then 1 else - 1))"
    using assms(2) by (simp add: abs_if)
  ultimately have "bubble + speed * T'
      = bubble + speed * T + 2 * ?s * of_int (sgn (if 0 < speed then 1 else - 1))"
    by simp
  then show eq: "spec_wrapped ?s (bubble + speed * T') a = spec_wrapped ?s (bubble + speed * T) a"
    by (simp only: spec_wrapped_shift [OF assms(1)])
  note e = fold_axis_accuracy [OF assms(1,4,5,6,7,9,10)]
  note e' = fold_axis_accuracy [OF assms(1,4,5,6,8,9,10)]
  have "(2::real) powi (k - 18) = 2 * 2 powi (k - 19)"
    using power_int_add [of "2::real" "k - 19" 1] by simp
  then show "\<bar>fold_axis glsl_mod32 window T' bubble speed a
           - fold_axis glsl_mod32 window T bubble speed a\<bar> \<le> 2 powi (k - 18)"
    using e e' unfolding eq by linarith
qed

text \<open>
  An instance: in a window 2048 wide the first frame and frame 512, one period later, of
  a bubble whose speed is \<open>2 * span / 512\<close>.
\<close>

theorem fold_periodic_witness:
  "\<bar>fold_axis glsl_mod32 2048 512 (14358677 / 8192) (7538681 / 1048576) (3399707 / 32768)
     - fold_axis glsl_mod32 2048 0 (14358677 / 8192) (7538681 / 1048576) (3399707 / 32768)\<bar>
     \<le> 2 powi (12 - 18)"
proof -
  have s: "span_axis 2048 (3399707 / 32768) = 7538681 / 4096"
    by code_simp
  have h: "0 < span_axis 2048 (3399707 / 32768)"
      "(7538681 / 1048576 :: real) \<noteq> 0"
      "512 = 0 + 2 * span_axis 2048 (3399707 / 32768) / \<bar>7538681 / 1048576 :: real\<bar>"
      "(0::real) \<le> 3399707 / 32768"
      "(3399707 / 32768 :: real) \<le> 2 powi 12"
      "\<bar>14358677 / 8192 :: real\<bar> \<le> 2 powi 12"
      "\<bar>7538681 / 1048576 * 0 :: real\<bar> \<le> 2 powi 12"
      "\<bar>7538681 / 1048576 * 512 :: real\<bar> \<le> 2 powi 12"
      "(2048::real) \<le> 2 powi 12"
      "- 125 \<le> (12::int)"
    by (simp_all add: s)
  from fold_periodic [OF h] show ?thesis
    by (rule conjunct2)
qed

text \<open>
  The claim as stated fails: in that instance the shader's fold differs between the two
  frames, by \<open>1 / 4096\<close>.
\<close>

theorem fold_periodic_counterexample:
  "fold_axis glsl_mod32 2048 0 (14358677 / 8192) (7538681 / 1048576) (3399707 / 32768)
     = 14358677 / 8192
   \<and> fold_axis glsl_mod32 2048 512 (14358677 / 8192) (7538681 / 1048576) (3399707 / 32768)
     = 14358675 / 8192
   \<and> 2 * span_axis 2048 (3399707 / 32768) / \<bar>7538681 / 1048576\<bar> = 512
   \<and> round32 (7538681 / 1048576) = 7538681 / 1048576"
proof -
  have s: "span_axis 2048 (3399707 / 32768) = 7538681 / 4096"
    by code_simp
  have m: "mod_axis glsl_mod32 2048 0 (14358677 / 8192) (7538681 / 1048576) (3399707 / 32768)
      = 6754375 / 4096"
    "mod_axis glsl_mod32 2048 512 (14358677 / 8192) (7538681 / 1048576) (3399707 / 32768)
      = 3377187 / 2048"
    by code_simp+
  have "round32 (round32 (7538681 / 4096 - \<bar>round32 (7538681 / 4096 - 6754375 / 4096)\<bar>)
      + 3399707 / 32768) = 14358677 / 8192"
    "round32 (round32 (7538681 / 4096 - \<bar>round32 (7538681 / 4096 - 3377187 / 2048)\<bar>)
      + 3399707 / 32768) = 14358675 / 8192"
    by code_simp+
  then have f: "fold_axis glsl_mod32 2048 0 (14358677 / 8192) (7538681 / 1048576)
      (3399707 / 32768) = 14358677 / 8192"
    "fold_axis glsl_mod32 2048 512 (14358677 / 8192) (7538681 / 1048576)
      (3399707 / 32768) = 14358675 / 8192"
    by (simp_all only: fold_axis_def Let_def m s)
  have p: "2 * span_axis 2048 (3399707 / 32768) / \<bar>7538681 / 1048576\<bar> = 512"
    by (simp add: s)
  have v: "round32 (7538681 / 1048576) = 7538681 / 1048576"
    by code_simp
  from f p v show ?thesis
    by (intro conjI)
qed

subsection \<open>Bubble generation\<close>

lemma round32_one: "round32 1 = 1"
  using round32_int [of 1] by simp

lemma round32_1024: "round32 (round32 v * 1024) = round32 v * 1024"
  using round32_scaled [of v 10] by simp

lemma round32_double: "round32 (round32 v + round32 v) = round32 v + round32 v"
  using round32_scaled [of v 1] by (simp add: mult.commute)

lemma lerp_bounds:
  assumes "a \<le> b" and "0 \<le> t" and "t \<le> 1"
  shows "round32 a \<le> lerp a b t" and "lerp a b t \<le> round32 (a + round32 (b - a))"
proof -
  have d: "0 \<le> round32 (b - a)"
    using assms(1) by (intro round32_nonneg) simp
  then have "0 \<le> round32 (b - a) * t"
    using assms(2) by simp
  then have "0 \<le> round32 (round32 (b - a) * t)"
    by (rule round32_nonneg)
  then have "a \<le> a + round32 (round32 (b - a) * t)"
    by simp
  then show "round32 a \<le> lerp a b t"
    unfolding lerp_def by (rule round32_mono)
  have "round32 (b - a) * t \<le> round32 (b - a) * 1"
    using d assms(3) by (intro mult_left_mono)
  then have "round32 (round32 (b - a) * t) \<le> round32 (round32 (b - a))"
    using round32_mono by simp
  then have "a + round32 (round32 (b - a) * t) \<le> a + round32 (b - a)"
    by (simp add: round32_idem)
  then show "lerp a b t \<le> round32 (a + round32 (b - a))"
    unfolding lerp_def by (rule round32_mono)
qed

lemma rand_in_range_shift:
  "rand_in_range M g \<Longrightarrow> rand_in_range M (\<lambda>j. g (j + k))"
  by (simp add: rand_in_range_def)

text \<open>A draw of \<open>frand()\<close> is in \<open>[0, 1]\<close>.\<close>

lemma frand_unit:
  assumes "0 < M" and "rand_in_range M g"
  shows "0 \<le> fst (frand M g)" and "fst (frand M g) \<le> 1"
proof -
  have v: "0 \<le> g 0" "g 0 \<le> M"
    using assms(2) by (simp_all add: rand_in_range_def)
  have a: "0 \<le> round32 (real_of_int (g 0))"
    using v(1) by (intro round32_nonneg) simp
  have ab: "round32 (real_of_int (g 0)) \<le> round32 (real_of_int M)"
    using v(2) by (intro round32_mono) simp
  have "round32 1 \<le> round32 (real_of_int M)"
    using assms(1) by (intro round32_mono) simp
  then have b: "0 < round32 (real_of_int M)"
    by (simp add: round32_one)
  have "0 \<le> round32 (real_of_int (g 0)) / round32 (real_of_int M)"
    using a b by simp
  then have "0 \<le> round32 (round32 (real_of_int (g 0)) / round32 (real_of_int M))"
    by (rule round32_nonneg)
  then show "0 \<le> fst (frand M g)"
    by (simp add: frand_def rand_def)
  have "round32 (real_of_int (g 0)) / round32 (real_of_int M) \<le> 1"
    using ab b by simp
  then have "round32 (round32 (real_of_int (g 0)) / round32 (real_of_int M)) \<le> round32 1"
    by (rule round32_mono)
  then show "fst (frand M g) \<le> 1"
    by (simp add: frand_def rand_def round32_one)
qed

lemma frand_snd: "snd (frand M g) = (\<lambda>j. g (j + 1))"
  by (simp add: frand_def rand_def)

lemma frand2_fst: "fst (frand2 M lo hi g) = lerp lo hi (fst (frand M g))"
  by (simp add: frand2_def split_beta)

lemma frand2_snd: "snd (frand2 M lo hi g) = (\<lambda>j. g (j + 1))"
  by (simp add: frand2_def split_beta frand_snd)

text \<open>The fields of a generated bubble, and the nine draws its generation consumes.\<close>

lemma gen_bubble_r:
  "r (fst (gen_bubble M powf g)) =
     round32 (lerp (round32 0.1) (round32 0.3) (powf (fst (frand M g)) 4) * 1024)"
  by (simp add: gen_bubble_def Let_def split_beta)

lemma gen_bubble_x:
  "x (fst (gen_bubble M powf g)) =
     (let rr = lerp (round32 0.1) (round32 0.3) (powf (fst (frand M g)) 4)
      in round32 (round32 (lerp (round32 (- 1 + rr)) (round32 (1 - rr))
                            (fst (frand M (\<lambda>j. g (j + 1)))) + 1) * 1024))"
  by (simp add: gen_bubble_def Let_def split_beta frand_snd frand2_fst)

lemma gen_bubble_y:
  "y (fst (gen_bubble M powf g)) =
     (let rr = lerp (round32 0.1) (round32 0.3) (powf (fst (frand M g)) 4)
      in round32 (round32 (lerp (round32 (- 1 + rr)) (round32 (1 - rr))
                            (fst (frand M (\<lambda>j. g (j + 2)))) + 1) * 1024))"
  by (simp add: gen_bubble_def Let_def split_beta frand_snd frand2_fst frand2_snd
      add.assoc)

lemma gen_bubble_snd: "snd (gen_bubble M powf g) = (\<lambda>j. g (j + 9))"
  by (simp add: gen_bubble_def Let_def split_beta frand_snd frand2_snd add.assoc
      eval_nat_numeral)

lemma gen_bubbles_length: "length (gen_bubbles M powf k g) = k"
  by (induction k arbitrary: g) (simp_all add: split_beta Let_def)

lemma gen_bubbles_nth:
  "i < k \<Longrightarrow> gen_bubbles M powf k g ! i = fst (gen_bubble M powf (\<lambda>j. g (j + 9 * i)))"
proof (induction k arbitrary: g i)
  case 0
  then show ?case by simp
next
  case (Suc k)
  show ?case
  proof (cases i)
    case 0
    then show ?thesis by (simp add: split_beta Let_def)
  next
    case (Suc i')
    with Suc.prems have "i' < k" by simp
    from Suc.IH [OF this, of "snd (gen_bubble M powf g)"] Suc show ?thesis
      by (simp add: split_beta Let_def gen_bubble_snd add.commute add.left_commute)
  qed
qed

lemma bubbles_nth:
  "i < 800 \<Longrightarrow> bubbles M powf g ! i = fst (gen_bubble M powf (\<lambda>j. g (j + 9 * i)))"
  by (simp add: bubbles_def n_def gen_bubbles_nth)

text \<open>The literals, and the greatest value the radius interpolation reaches.\<close>

lemma literals:
  "round32 0.1 = 13421773 / 134217728" "round32 0.3 = 5033165 / 16777216"
  "round32 (round32 0.1 + round32 (round32 0.3 - round32 0.1)) = round32 0.3"
  by code_simp+

lemma radius_bounds:
  assumes "0 < M" and "rand_in_range M g" and "powf_in_unit powf"
  shows "round32 0.1 \<le> lerp (round32 0.1) (round32 0.3) (powf (fst (frand M g)) 4)"
    and "lerp (round32 0.1) (round32 0.3) (powf (fst (frand M g)) 4) \<le> round32 0.3"
proof -
  have t: "0 \<le> powf (fst (frand M g)) 4" "powf (fst (frand M g)) 4 \<le> 1"
    using assms(3) frand_unit [OF assms(1,2)] by (simp_all add: powf_in_unit_def)
  have le: "round32 0.1 \<le> round32 0.3"
    by (intro round32_mono) simp
  from lerp_bounds [OF le t]
  show "round32 0.1 \<le> lerp (round32 0.1) (round32 0.3) (powf (fst (frand M g)) 4)"
    and "lerp (round32 0.1) (round32 0.3) (powf (fst (frand M g)) 4) \<le> round32 0.3"
    by (simp_all only: round32_idem literals(3))
qed

lemma gen_bubble_radius:
  "r (fst (gen_bubble M powf g)) =
     lerp (round32 0.1) (round32 0.3) (powf (fst (frand M g)) 4) * 1024"
  unfolding gen_bubble_r lerp_def by (rule round32_1024)

lemma ulp_half:
  "(2::real) powi (0 - 25) = 1 / 33554432" "(2::real) powi (1 - 25) = 1 / 16777216"
  "(2::real) powi 0 = 1" "(2::real) powi 1 = 2"
  by (simp_all add: power_int_minus field_simps)

text \<open>
  The placement of a centre: with \<open>R\<close> the radius before scaling and \<open>h\<close> the rounded
  \<open>1 - R\<close>, the draw lies in \<open>[- h, h]\<close>, and two roundings separate \<open>draw + 1\<close> from \<open>R\<close>
  and from \<open>2 - R\<close>.
\<close>

lemma centre_bounds:
  assumes R: "round32 R = R" "0 \<le> R" "R \<le> 1" and u: "0 \<le> u" "u \<le> 1"
  shows "R - 1 / 16777216
           \<le> round32 (lerp (round32 (- 1 + R)) (round32 (1 - R)) u + 1)"
    and "round32 (lerp (round32 (- 1 + R)) (round32 (1 - R)) u + 1)
           \<le> 2 - R + 3 / 33554432"
proof -
  define h where "h = round32 (1 - R)"
  have lo: "round32 (- 1 + R) = - h"
    using round32_minus [of "1 - R"] by (simp add: h_def)
  have h0: "0 \<le> h"
    unfolding h_def using R(3) by (intro round32_nonneg) simp
  have "round32 (1 - R) \<le> round32 1"
    using R(2) by (intro round32_mono) simp
  then have h1: "h \<le> 1"
    by (simp add: h_def round32_one)
  have hh: "round32 h = h"
    by (simp add: h_def round32_idem)
  have "\<bar>1 - R\<bar> \<le> 2 powi 0"
    using R(2,3) by simp
  from round32_error [OF this] have eh: "\<bar>h - (1 - R)\<bar> \<le> 1 / 33554432"
    by (simp add: h_def ulp_half)
  have "round32 (h - - h) = h + h"
    using round32_double [of "1 - R"] by (simp add: h_def)
  then have top: "round32 (- h + round32 (h - - h)) = h"
    by (simp add: hh)
  have "- h \<le> h"
    using h0 by simp
  from lerp_bounds [OF this u] have f: "- h \<le> lerp (- h) h u" "lerp (- h) h u \<le> h"
    by (simp_all only: top round32_minus hh)
  have "\<bar>1 - h\<bar> \<le> 2 powi 0"
    using h0 h1 by simp
  from round32_error [OF this] have e1: "\<bar>round32 (1 - h) - (1 - h)\<bar> \<le> 1 / 33554432"
    by (simp add: ulp_half)
  have "round32 (1 - h) \<le> round32 (lerp (- h) h u + 1)"
    using f(1) by (intro round32_mono) simp
  with e1 eh show "R - 1 / 16777216
           \<le> round32 (lerp (round32 (- 1 + R)) (round32 (1 - R)) u + 1)"
    unfolding lo h_def [symmetric] by linarith
  have "\<bar>1 + h\<bar> \<le> 2 powi 1"
    using h0 h1 by simp
  from round32_error [OF this] have e2: "\<bar>round32 (1 + h) - (1 + h)\<bar> \<le> 1 / 16777216"
    by (simp add: ulp_half)
  have "round32 (lerp (- h) h u + 1) \<le> round32 (1 + h)"
    using f(2) by (intro round32_mono) simp
  with e2 eh show "round32 (lerp (round32 (- 1 + R)) (round32 (1 - R)) u + 1)
           \<le> 2 - R + 3 / 33554432"
    unfolding lo h_def [symmetric] by linarith
qed

lemma gen_bubble_inside:
  assumes "0 < M" and "rand_in_range M g" and "powf_in_unit powf"
  shows "- (1 / 16384) \<le> x (fst (gen_bubble M powf g)) - r (fst (gen_bubble M powf g))"
    and "x (fst (gen_bubble M powf g)) + r (fst (gen_bubble M powf g)) \<le> 2048 + 3 / 32768"
    and "- (1 / 16384) \<le> y (fst (gen_bubble M powf g)) - r (fst (gen_bubble M powf g))"
    and "y (fst (gen_bubble M powf g)) + r (fst (gen_bubble M powf g)) \<le> 2048 + 3 / 32768"
proof -
  define R where "R = lerp (round32 0.1) (round32 0.3) (powf (fst (frand M g)) 4)"
  have "round32 0.1 \<le> R" "R \<le> round32 0.3"
    using radius_bounds [OF assms] by (simp_all add: R_def)
  then have R: "round32 R = R" "0 \<le> R" "R \<le> 1"
    by (simp_all add: literals) (simp add: R_def lerp_def round32_idem)
  have rv: "r (fst (gen_bubble M powf g)) = R * 1024"
    by (simp add: gen_bubble_radius R_def)
  have xv: "x (fst (gen_bubble M powf g)) =
      round32 (lerp (round32 (- 1 + R)) (round32 (1 - R)) (fst (frand M (\<lambda>j. g (j + 1)))) + 1)
      * 1024"
    by (simp add: gen_bubble_x Let_def R_def [symmetric] round32_1024)
  have yv: "y (fst (gen_bubble M powf g)) =
      round32 (lerp (round32 (- 1 + R)) (round32 (1 - R)) (fst (frand M (\<lambda>j. g (j + 2)))) + 1)
      * 1024"
    by (simp add: gen_bubble_y Let_def R_def [symmetric] round32_1024)
  note ux = frand_unit [OF assms(1) rand_in_range_shift [OF assms(2), of 1]]
  note uy = frand_unit [OF assms(1) rand_in_range_shift [OF assms(2), of 2]]
  note cx = centre_bounds [OF R ux]
  note cy = centre_bounds [OF R uy]
  show "- (1 / 16384) \<le> x (fst (gen_bubble M powf g)) - r (fst (gen_bubble M powf g))"
    unfolding xv rv using cx(1) by linarith
  show "x (fst (gen_bubble M powf g)) + r (fst (gen_bubble M powf g)) \<le> 2048 + 3 / 32768"
    unfolding xv rv using cx(2) by linarith
  show "- (1 / 16384) \<le> y (fst (gen_bubble M powf g)) - r (fst (gen_bubble M powf g))"
    unfolding yv rv using cy(1) by linarith
  show "y (fst (gen_bubble M powf g)) + r (fst (gen_bubble M powf g)) \<le> 2048 + 3 / 32768"
    unfolding yv rv using cy(2) by linarith
qed

lemma powf_rounded_in_unit: "powf_in_unit powf_rounded"
proof -
  have "0 \<le> round32 (u ^ 4) \<and> round32 (u ^ 4) \<le> 1" if "0 \<le> u" "u \<le> 1" for u :: real
  proof
    show "0 \<le> round32 (u ^ 4)"
      using that by (intro round32_nonneg) simp
    have "round32 (u ^ 4) \<le> round32 1"
      using that by (intro round32_mono power_le_one)
    then show "round32 (u ^ 4) \<le> 1"
      by (simp add: round32_one)
  qed
  then show ?thesis
    by (simp add: powf_in_unit_def powf_rounded_def)
qed

lemma sample_rand_state:
  "c_RAND_MAX sample_answers = 32767" "c_powf sample_answers = powf_rounded"
  "rand_state sample_answers = (\<lambda>i. if even i then 32767 else 0)"
  "rand_in_range 32767 (rand_state sample_answers)"
  by (simp_all add: sample_answers_def rand_in_range_def)

lemma frand_fst:
  "fst (frand M g) = round32 (round32 (real_of_int (g 0)) / round32 (real_of_int M))"
  by (simp add: frand_def rand_def)

text \<open>
  Claim C4, as the code has it. When \<open>rand()\<close> keeps to \<open>[0, RAND_MAX]\<close> and \<open>powf\<close> maps
  \<open>[0, 1]\<close> into \<open>[0, 1]\<close>, every one of the generated bubbles satisfies
  \<open>x - r \<ge> - 2 ^ -14\<close>, \<open>x + r \<le> 2048 + 3 * 2 ^ -15\<close>, and the same for \<open>y\<close>, where \<open>r\<close> is
  its radius in pixels: the stored binary32 values keep to the logical area up to the
  roundings of \<open>1 - r\<close> and of the centre, scaled by 1024.
\<close>

theorem bubbles_inside_logical_area:
  assumes "0 < RAND_MAX" and "rand_in_range RAND_MAX g" and "powf_in_unit powf" and "i < 800"
  shows "- (1 / 16384) \<le> x (bubbles RAND_MAX powf g ! i) - r (bubbles RAND_MAX powf g ! i)
       \<and> x (bubbles RAND_MAX powf g ! i) + r (bubbles RAND_MAX powf g ! i) \<le> 2048 + 3 / 32768
       \<and> - (1 / 16384) \<le> y (bubbles RAND_MAX powf g ! i) - r (bubbles RAND_MAX powf g ! i)
       \<and> y (bubbles RAND_MAX powf g ! i) + r (bubbles RAND_MAX powf g ! i) \<le> 2048 + 3 / 32768"
  using gen_bubble_inside [OF assms(1) rand_in_range_shift [OF assms(2), of "9 * i"] assms(3)]
  by (simp only: bubbles_nth [OF assms(4)])

theorem bubbles_inside_logical_area_witness:
  "- (1 / 16384) \<le> x (bubbles 32767 powf_rounded (rand_state sample_answers) ! 7)
                    - r (bubbles 32767 powf_rounded (rand_state sample_answers) ! 7)
   \<and> x (bubbles 32767 powf_rounded (rand_state sample_answers) ! 7)
       + r (bubbles 32767 powf_rounded (rand_state sample_answers) ! 7) \<le> 2048 + 3 / 32768
   \<and> - (1 / 16384) \<le> y (bubbles 32767 powf_rounded (rand_state sample_answers) ! 7)
                    - r (bubbles 32767 powf_rounded (rand_state sample_answers) ! 7)
   \<and> y (bubbles 32767 powf_rounded (rand_state sample_answers) ! 7)
       + r (bubbles 32767 powf_rounded (rand_state sample_answers) ! 7) \<le> 2048 + 3 / 32768"
proof -
  have "(0::int) < 32767" and "(7::nat) < 800"
    by simp_all
  from bubbles_inside_logical_area [OF this(1) sample_rand_state(4) powf_rounded_in_unit this(2)]
  show ?thesis .
qed

text \<open>
  The claim as stated fails. With \<open>RAND_MAX = 32767\<close> and the draws 1061, 0 and \<open>RAND_MAX\<close>,
  the first bubble is stored with \<open>x - r < 0\<close> and \<open>y + r > 2048\<close>.
\<close>

theorem bubbles_inside_logical_area_counterexample:
  "x (bubbles 32767 powf_rounded (sample_rand [1061, 0, 32767]) ! 0)
     - r (bubbles 32767 powf_rounded (sample_rand [1061, 0, 32767]) ! 0) = - (3 / 131072)
   \<and> y (bubbles 32767 powf_rounded (sample_rand [1061, 0, 32767]) ! 0)
     + r (bubbles 32767 powf_rounded (sample_rand [1061, 0, 32767]) ! 0) = 2048 + 11 / 131072"
proof -
  have nth: "bubbles 32767 powf_rounded (sample_rand [1061, 0, 32767]) ! 0
      = fst (gen_bubble 32767 powf_rounded (sample_rand [1061, 0, 32767]))"
    using bubbles_nth [of 0 32767 powf_rounded "sample_rand [1061, 0, 32767]"] by simp
  have "round32 (round32 1061 / round32 32767) = 8691977 / 268435456"
    "round32 (round32 0 / round32 32767) = 0"
    "round32 (round32 32767 / round32 32767) = 1"
    by code_simp+
  then have u: "fst (frand 32767 (sample_rand [1061, 0, 32767])) = 8691977 / 268435456"
    "fst (frand 32767 (\<lambda>j. sample_rand [1061, 0, 32767] (j + 1))) = 0"
    "fst (frand 32767 (\<lambda>j. sample_rand [1061, 0, 32767] (j + 2))) = 1"
    by (simp_all add: frand_fst sample_rand_def)
  have R: "lerp (round32 0.1) (round32 0.3) (powf_rounded (8691977 / 268435456) 4)
      = 13421803 / 134217728"
    by code_simp
  have xv: "round32 (round32 (lerp (round32 (- 1 + 13421803 / 134217728))
                               (round32 (1 - 13421803 / 134217728)) 0 + 1) * 1024)
      = 1677725 / 16384"
    by code_simp
  have yv: "round32 (round32 (lerp (round32 (- 1 + 13421803 / 134217728))
                               (round32 (1 - 13421803 / 134217728)) 1 + 1) * 1024)
      = 7969177 / 4096"
    by code_simp
  have "x (bubbles 32767 powf_rounded (sample_rand [1061, 0, 32767]) ! 0) = 1677725 / 16384"
    by (simp only: nth gen_bubble_x Let_def u R xv)
  moreover have "y (bubbles 32767 powf_rounded (sample_rand [1061, 0, 32767]) ! 0)
      = 7969177 / 4096"
    by (simp only: nth gen_bubble_y Let_def u R yv)
  moreover have "r (bubbles 32767 powf_rounded (sample_rand [1061, 0, 32767]) ! 0)
      = 13421803 / 134217728 * 1024"
    by (simp only: nth gen_bubble_radius u R)
  ultimately show ?thesis
    by simp
qed

text \<open>
  Claim C5, as the code has it. There are 800 bubbles, and the radius of the \<open>i\<close>-th is
  \<open>lerp(.1f, .3f, powf(u, 4)) * 1024.f\<close>, every operation rounded to binary32, for the
  draw \<open>u = (float)rand() / RAND_MAX\<close> that opens its generation (the \<open>9 * i\<close>-th draw of the
  run), which lies in \<open>[0, 1]\<close>. When \<open>powf\<close> maps \<open>[0, 1]\<close> into \<open>[0, 1]\<close>, the radius lies
  between \<open>.1f * 1024 = 13421773 / 131072\<close> and \<open>.3f * 1024 = 5033165 / 16384\<close>; it is at
  least \<open>0.1 * 1024\<close>.
\<close>

theorem bubbles_radius:
  assumes "0 < RAND_MAX" and "rand_in_range RAND_MAX g" and "powf_in_unit powf"
  shows "length (bubbles RAND_MAX powf g) = 800
       \<and> (\<forall>i < 800.
            r (bubbles RAND_MAX powf g ! i)
              = lerp (round32 0.1) (round32 0.3)
                  (powf (fst (frand RAND_MAX (\<lambda>j. g (j + 9 * i)))) 4) * 1024
            \<and> 0 \<le> fst (frand RAND_MAX (\<lambda>j. g (j + 9 * i)))
            \<and> fst (frand RAND_MAX (\<lambda>j. g (j + 9 * i))) \<le> 1
            \<and> 13421773 / 131072 \<le> r (bubbles RAND_MAX powf g ! i)
            \<and> r (bubbles RAND_MAX powf g ! i) \<le> 5033165 / 16384
            \<and> 0.1 * 1024 \<le> r (bubbles RAND_MAX powf g ! i))
       \<and> round32 0.1 * 1024 = 13421773 / 131072
       \<and> round32 0.3 * 1024 = 5033165 / 16384"
proof (intro conjI allI impI)
  show "length (bubbles RAND_MAX powf g) = 800"
    by (simp add: bubbles_def n_def gen_bubbles_length)
  show "round32 0.1 * 1024 = 13421773 / 131072" "round32 0.3 * 1024 = 5033165 / 16384"
    by (simp_all add: literals)
next
  fix i :: nat
  assume i: "i < 800"
  let ?g = "\<lambda>j. g (j + 9 * i)"
  note sh = rand_in_range_shift [OF assms(2), of "9 * i"]
  note rb = radius_bounds [OF assms(1) sh assms(3)]
  show rv: "r (bubbles RAND_MAX powf g ! i)
      = lerp (round32 0.1) (round32 0.3) (powf (fst (frand RAND_MAX ?g)) 4) * 1024"
    by (simp only: bubbles_nth [OF i] gen_bubble_radius)
  show "0 \<le> fst (frand RAND_MAX ?g)" "fst (frand RAND_MAX ?g) \<le> 1"
    by (rule frand_unit [OF assms(1) sh])+
  show lo: "13421773 / 131072 \<le> r (bubbles RAND_MAX powf g ! i)"
    unfolding rv using rb(1) by (simp add: literals)
  show "r (bubbles RAND_MAX powf g ! i) \<le> 5033165 / 16384"
    unfolding rv using rb(2) by (simp add: literals)
  show "0.1 * 1024 \<le> r (bubbles RAND_MAX powf g ! i)"
    using lo by simp
qed

theorem bubbles_radius_witness:
  "length (bubbles 32767 powf_rounded (rand_state sample_answers)) = 800
   \<and> r (bubbles 32767 powf_rounded (rand_state sample_answers) ! 3)
       = lerp (round32 0.1) (round32 0.3)
           (powf_rounded (fst (frand 32767 (\<lambda>j. rand_state sample_answers (j + 9 * 3)))) 4)
         * 1024
   \<and> 13421773 / 131072 \<le> r (bubbles 32767 powf_rounded (rand_state sample_answers) ! 3)
   \<and> r (bubbles 32767 powf_rounded (rand_state sample_answers) ! 3) \<le> 5033165 / 16384"
proof -
  have "(0::int) < 32767"
    by simp
  note t = bubbles_radius [OF this sample_rand_state(4) powf_rounded_in_unit]
  note len = conjunct1 [OF t]
  have "(3::nat) < 800"
    by simp
  note at = conjunct1 [OF conjunct2 [OF t], rule_format, OF this]
  from len at show ?thesis
    by blast
qed

text \<open>
  The claim as stated fails at the upper end: \<open>.3f\<close> is greater than \<open>0.3\<close>, and a first draw
  of \<open>RAND_MAX\<close> gives the radius \<open>.3f * 1024\<close>, which is greater than \<open>0.3 * 1024\<close>.
\<close>

theorem bubbles_radius_counterexample:
  "r (bubbles (c_RAND_MAX sample_answers) (c_powf sample_answers)
        (rand_state sample_answers) ! 0) = 5033165 / 16384
   \<and> 0.3 * 1024
       < r (bubbles (c_RAND_MAX sample_answers) (c_powf sample_answers)
              (rand_state sample_answers) ! 0)"
proof -
  have "round32 (round32 32767 / round32 32767) = 1"
    by code_simp
  then have u: "fst (frand 32767 (rand_state sample_answers)) = 1"
    by (simp add: frand_fst sample_rand_state)
  have R: "lerp (round32 0.1) (round32 0.3) (powf_rounded 1 4) * 1024 = 5033165 / 16384"
    by code_simp
  have nth: "bubbles 32767 powf_rounded (rand_state sample_answers) ! 0
      = fst (gen_bubble 32767 powf_rounded (rand_state sample_answers))"
    using bubbles_nth [of 0 32767 powf_rounded "rand_state sample_answers"] by simp
  have "r (bubbles 32767 powf_rounded (rand_state sample_answers) ! 0) = 5033165 / 16384"
    by (simp only: nth gen_bubble_radius u R)
  then show ?thesis
    by (simp add: sample_rand_state(1,2))
qed

subsection \<open>The frame loop\<close>

lemma sint_of_nat_small:
  assumes "k < 2 ^ 31"
  shows "sint (of_nat k :: 32 word) = int k"
proof -
  have "sint (of_nat k :: 32 word) = signed_take_bit 31 (int k)"
    using sint_sbintrunc' [of "int k", where ?'a = 32] by simp
  also have "\<dots> = int k"
    using assms by (intro signed_take_bit_int_eq_self) auto
  finally show ?thesis .
qed

lemma sint_succ:
  assumes "sint w < 2 ^ 31 - 1"
  shows "sint (w + 1 :: 32 word) = sint w + 1"
proof -
  have lo: "- (2 ^ 31) \<le> sint w"
    using sint_ge [of w] by simp
  have "sint (w + 1) = signed_take_bit 31 (sint w + 1)"
    by (simp add: sint_word_add)
  also have "\<dots> = sint w + 1"
    using assms lo by (intro signed_take_bit_int_eq_self) auto
  finally show ?thesis .
qed

lemma fmt_n: "fmt_i (int n) = ''800''"
  by (simp add: n_def fmt_i_def dec.simps)

text \<open>The calls of one iteration, and the state it leaves.\<close>

lemma frame_calls:
  "fst (frame h i s) =
     (if lastWidth s \<noteq> fb_width i \<or> lastHeight s \<noteq> fb_height i
      then fst (resize h i s) else [])
     @ [glBindFramebuffer GL_FRAMEBUFFER (renderFBO h),
        glUniform1f (uniformT h) (round32 (real_of_int (sint (totalFrames s)))),
        glDrawArraysInstanced 0 4 n,
        glBindFramebuffer GL_READ_FRAMEBUFFER (blitFBO h),
        glBindFramebuffer GL_DRAW_FRAMEBUFFER 0,
        glBlitFramebuffer 0 0 (fb_width i) (fb_height i) 0 0 (fb_width i) (fb_height i),
        glfwSwapBuffers]
     @ (if 2 \<le> clock i - start s
        then [printf_fps (real_of_int (sint (frames s + 1)) / (clock i - start s)),
              fflush_stdout]
        else [])
     @ [glfwPollEvents]"
  by (simp add: frame_def resize_def Let_def split_beta)

lemma frame_state:
  "snd (frame h i s) =
     \<lparr>tex = (if lastWidth s \<noteq> fb_width i \<or> lastHeight s \<noteq> fb_height i
              then new_texture i else tex s),
      totalFrames = totalFrames s + 1,
      frames = (if 2 \<le> clock i - start s then 0 else frames s + 1),
      start = (if 2 \<le> clock i - start s then clock i else start s),
      lastWidth = fb_width i,
      lastHeight = fb_height i\<rparr>"
  by (cases s) (simp add: frame_def resize_def Let_def split_beta)

lemma resize_calls:
  "filter is_resize_call (fst (resize h i s)) =
     [printf (''rendering 800 bubbles at '' @ fmt_i (fb_width i) @ '' x ''
              @ fmt_i (fb_height i) @ eol),
      glViewport 0 0 (fb_width i) (fb_height i),
      glUniform2f (uniformWindow h) (real_of_int (fb_width i)) (real_of_int (fb_height i)),
      glDeleteTextures (tex s),
      glGenTextures (new_texture i),
      glBindTexture (new_texture i),
      glTexStorage2D 1 (fb_width i) (fb_height i),
      glFramebufferTexture2D (new_texture i),
      glDrawBuffers 0,
      glFramebufferParameteri GL_FRAMEBUFFER_DEFAULT_WIDTH (fb_width i),
      glFramebufferParameteri GL_FRAMEBUFFER_DEFAULT_HEIGHT (fb_height i),
      glBindImageTexture 0 (new_texture i)]"
  by (simp add: resize_def Let_def fmt_n)

lemma resize_printed:
  "printed (fst (resize h i s)) =
     [''rendering 800 bubbles at '' @ fmt_i (fb_width i) @ '' x '' @ fmt_i (fb_height i) @ eol]"
  by (simp add: resize_def Let_def fmt_n)

text \<open>
  Claim C8. An iteration that observes the size the previous iteration observed makes
  none of the calls of the resize branch (no announcement, no viewport or window-size
  uniform update, no texture call) and leaves the cached size and the texture as they
  were. An iteration that observes a size different from the cached one makes the calls
  of the resize branch once each, in order, one \<open>glTexStorage2D\<close> among them, and prints
  the one line \<open>rendering 800 bubbles at <width> x <height>\<close>.
\<close>

theorem resize_only_on_change:
  "(fb_width i2 = fb_width i1 \<and> fb_height i2 = fb_height i1 \<longrightarrow>
      filter is_resize_call (fst (frame h i2 (snd (frame h i1 s)))) = []
      \<and> printed (fst (frame h i2 (snd (frame h i1 s)))) = []
      \<and> tex (snd (frame h i2 (snd (frame h i1 s)))) = tex (snd (frame h i1 s))
      \<and> lastWidth (snd (frame h i2 (snd (frame h i1 s)))) = lastWidth (snd (frame h i1 s))
      \<and> lastHeight (snd (frame h i2 (snd (frame h i1 s)))) = lastHeight (snd (frame h i1 s)))
   \<and> (lastWidth s \<noteq> fb_width i \<or> lastHeight s \<noteq> fb_height i \<longrightarrow>
      filter is_resize_call (fst (frame h i s)) =
        [printf (''rendering 800 bubbles at '' @ fmt_i (fb_width i) @ '' x ''
                 @ fmt_i (fb_height i) @ eol),
         glViewport 0 0 (fb_width i) (fb_height i),
         glUniform2f (uniformWindow h) (real_of_int (fb_width i)) (real_of_int (fb_height i)),
         glDeleteTextures (tex s),
         glGenTextures (new_texture i),
         glBindTexture (new_texture i),
         glTexStorage2D 1 (fb_width i) (fb_height i),
         glFramebufferTexture2D (new_texture i),
         glDrawBuffers 0,
         glFramebufferParameteri GL_FRAMEBUFFER_DEFAULT_WIDTH (fb_width i),
         glFramebufferParameteri GL_FRAMEBUFFER_DEFAULT_HEIGHT (fb_height i),
         glBindImageTexture 0 (new_texture i)]
      \<and> printed (fst (frame h i s)) =
        [''rendering 800 bubbles at '' @ fmt_i (fb_width i) @ '' x ''
         @ fmt_i (fb_height i) @ eol]
      \<and> tex (snd (frame h i s)) = new_texture i
      \<and> lastWidth (snd (frame h i s)) = fb_width i
      \<and> lastHeight (snd (frame h i s)) = fb_height i)"
proof (intro conjI impI)
  assume same: "fb_width i2 = fb_width i1 \<and> fb_height i2 = fb_height i1"
  let ?s1 = "snd (frame h i1 s)"
  have cached: "lastWidth ?s1 = fb_width i2" "lastHeight ?s1 = fb_height i2"
    using same by (simp_all add: frame_state)
  show "filter is_resize_call (fst (frame h i2 ?s1)) = []"
    by (simp add: frame_calls [of h i2] cached)
  show "printed (fst (frame h i2 ?s1)) = []"
    by (simp add: frame_calls [of h i2] cached)
  show "tex (snd (frame h i2 ?s1)) = tex ?s1"
    by (simp add: frame_state [of h i2] cached)
  show "lastWidth (snd (frame h i2 ?s1)) = lastWidth ?s1"
    by (simp add: frame_state [of h i2] cached)
  show "lastHeight (snd (frame h i2 ?s1)) = lastHeight ?s1"
    by (simp add: frame_state [of h i2] cached)
next
  assume differ: "lastWidth s \<noteq> fb_width i \<or> lastHeight s \<noteq> fb_height i"
  then have calls: "fst (frame h i s) =
      fst (resize h i s)
      @ [glBindFramebuffer GL_FRAMEBUFFER (renderFBO h),
         glUniform1f (uniformT h) (round32 (real_of_int (sint (totalFrames s)))),
         glDrawArraysInstanced 0 4 n,
         glBindFramebuffer GL_READ_FRAMEBUFFER (blitFBO h),
         glBindFramebuffer GL_DRAW_FRAMEBUFFER 0,
         glBlitFramebuffer 0 0 (fb_width i) (fb_height i) 0 0 (fb_width i) (fb_height i),
         glfwSwapBuffers]
      @ (if 2 \<le> clock i - start s
         then [printf_fps (real_of_int (sint (frames s + 1)) / (clock i - start s)),
               fflush_stdout]
         else [])
      @ [glfwPollEvents]"
    by (simp only: frame_calls if_True)
  show "filter is_resize_call (fst (frame h i s)) =
        [printf (''rendering 800 bubbles at '' @ fmt_i (fb_width i) @ '' x ''
                 @ fmt_i (fb_height i) @ eol),
         glViewport 0 0 (fb_width i) (fb_height i),
         glUniform2f (uniformWindow h) (real_of_int (fb_width i)) (real_of_int (fb_height i)),
         glDeleteTextures (tex s),
         glGenTextures (new_texture i),
         glBindTexture (new_texture i),
         glTexStorage2D 1 (fb_width i) (fb_height i),
         glFramebufferTexture2D (new_texture i),
         glDrawBuffers 0,
         glFramebufferParameteri GL_FRAMEBUFFER_DEFAULT_WIDTH (fb_width i),
         glFramebufferParameteri GL_FRAMEBUFFER_DEFAULT_HEIGHT (fb_height i),
         glBindImageTexture 0 (new_texture i)]"
    by (simp add: calls resize_calls)
  have printed_append: "\<And>a b. printed (a @ b) = printed a @ printed b"
  proof -
    fix a b show "printed (a @ b) = printed a @ printed b"
      by (induction a rule: printed.induct) simp_all
  qed
  show "printed (fst (frame h i s)) =
        [''rendering 800 bubbles at '' @ fmt_i (fb_width i) @ '' x ''
         @ fmt_i (fb_height i) @ eol]"
    by (simp add: calls printed_append resize_printed)
  show "tex (snd (frame h i s)) = new_texture i"
    using differ by (simp add: frame_state)
  show "lastWidth (snd (frame h i s)) = fb_width i"
    by (simp add: frame_state)
  show "lastHeight (snd (frame h i s)) = fb_height i"
    by (simp add: frame_state)
qed

theorem resize_only_on_change_witness:
  "fb_width (sample_input 1024 768 2 1) = fb_width (sample_input 1024 768 1 (1 / 2))
   \<and> fb_height (sample_input 1024 768 2 1) = fb_height (sample_input 1024 768 1 (1 / 2))
   \<and> lastWidth (init_state 0) \<noteq> fb_width (sample_input 1024 768 1 (1 / 2))
   \<and> printed (fst (frame sample_handles (sample_input 1024 768 1 (1 / 2)) (init_state 0)))
       = [''rendering 800 bubbles at 1024 x 768'' @ eol]
   \<and> lastWidth (snd (frame sample_handles (sample_input 1024 768 1 (1 / 2)) (init_state 0)))
       = 1024
   \<and> filter is_resize_call
         (fst (frame sample_handles (sample_input 1024 768 2 1)
                (snd (frame sample_handles (sample_input 1024 768 1 (1 / 2)) (init_state 0)))))
       = []
   \<and> tex (snd (frame sample_handles (sample_input 1024 768 2 1)
                (snd (frame sample_handles (sample_input 1024 768 1 (1 / 2)) (init_state 0)))))
       = 1"
  using resize_only_on_change
    [of "sample_input 1024 768 2 1" "sample_input 1024 768 1 (1 / 2)" sample_handles
        "init_state 0" "sample_input 1024 768 1 (1 / 2)"]
  by (simp add: init_state_def sample_input_def fmt_i_def dec.simps)

lemma fps_reports_append: "fps_reports (a @ b) = fps_reports a @ fps_reports b"
  by (induction a rule: fps_reports.induct) simp_all

lemma resize_fps_reports: "fps_reports (fst (resize h i s)) = []"
  by (simp add: resize_def Let_def)

lemma frame_fps_reports:
  "fps_reports (fst (frame h i s)) =
     (if 2 \<le> clock i - start s
      then [real_of_int (sint (frames s + 1)) / (clock i - start s)] else [])"
  by (simp add: frame_calls fps_reports_append resize_fps_reports)

text \<open>
  Claim C9. An iteration at whose end at least 2 seconds have passed since \<open>start\<close> prints
  the frame count (this iteration included) divided by the seconds passed, and then sets
  the frame count to 0 and \<open>start\<close> to the present time; an iteration that ends earlier
  prints no rate and only counts the frame. When exactly 2 seconds have passed and the
  count, this iteration included, is \<open>F\<close>, the value printed is \<open>F / 2\<close>.
\<close>

theorem fps_report:
  "(2 \<le> clock i - start s \<longrightarrow>
      fps_reports (fst (frame h i s)) = [real_of_int (sint (frames s + 1)) / (clock i - start s)]
      \<and> frames (snd (frame h i s)) = 0
      \<and> start (snd (frame h i s)) = clock i)
   \<and> (clock i - start s < 2 \<longrightarrow>
      fps_reports (fst (frame h i s)) = []
      \<and> frames (snd (frame h i s)) = frames s + 1
      \<and> start (snd (frame h i s)) = start s)
   \<and> (clock i - start s = 2 \<and> sint (frames s) < 2 ^ 31 - 1 \<longrightarrow>
      fps_reports (fst (frame h i s)) = [(real_of_int (sint (frames s)) + 1) / 2])"
  by (simp add: frame_fps_reports frame_state sint_succ)

theorem fps_report_witness:
  "2 \<le> clock (sample_input 1024 768 1 12)
          - start \<lparr>tex = 1, totalFrames = 99, frames = 99, start = 10,
                   lastWidth = 1024, lastHeight = 768\<rparr>
   \<and> clock (sample_input 1024 768 1 (21 / 2))
          - start \<lparr>tex = 1, totalFrames = 99, frames = 99, start = 10,
                   lastWidth = 1024, lastHeight = 768\<rparr> < 2
   \<and> sint (frames \<lparr>tex = 1, totalFrames = 99, frames = 99, start = 10,
                    lastWidth = 1024, lastHeight = 768\<rparr>) < 2 ^ 31 - 1
   \<and> fps_reports (fst (frame sample_handles (sample_input 1024 768 1 12)
                     \<lparr>tex = 1, totalFrames = 99, frames = 99, start = 10,
                      lastWidth = 1024, lastHeight = 768\<rparr>))
       = [50]
   \<and> frames (snd (frame sample_handles (sample_input 1024 768 1 12)
                     \<lparr>tex = 1, totalFrames = 99, frames = 99, start = 10,
                      lastWidth = 1024, lastHeight = 768\<rparr>))
       = 0
   \<and> start (snd (frame sample_handles (sample_input 1024 768 1 12)
                     \<lparr>tex = 1, totalFrames = 99, frames = 99, start = 10,
                      lastWidth = 1024, lastHeight = 768\<rparr>))
       = 12
   \<and> fps_reports (fst (frame sample_handles (sample_input 1024 768 1 (21 / 2))
                     \<lparr>tex = 1, totalFrames = 99, frames = 99, start = 10,
                      lastWidth = 1024, lastHeight = 768\<rparr>))
       = []
   \<and> frames (snd (frame sample_handles (sample_input 1024 768 1 (21 / 2))
                     \<lparr>tex = 1, totalFrames = 99, frames = 99, start = 10,
                      lastWidth = 1024, lastHeight = 768\<rparr>))
       = 100"
  using fps_report
    [of "sample_input 1024 768 1 12"
        "\<lparr>tex = 1, totalFrames = 99, frames = 99, start = 10,
          lastWidth = 1024, lastHeight = 768\<rparr>"
        sample_handles]
    fps_report
    [of "sample_input 1024 768 1 (21 / 2)"
        "\<lparr>tex = 1, totalFrames = 99, frames = 99, start = 10,
          lastWidth = 1024, lastHeight = 768\<rparr>"
        sample_handles]
  by (simp add: sample_input_def)

lemma run_loop_length: "length (fst (run_loop h iters s)) = length iters"
  by (induction iters arbitrary: s) (simp_all add: split_beta Let_def)

lemma run_loop_nth:
  "k < length iters \<Longrightarrow>
     fst (run_loop h iters s) ! k = fst (frame h (iters ! k) (snd (run_loop h (take k iters) s)))"
proof (induction iters arbitrary: s k)
  case Nil
  then show ?case by simp
next
  case (Cons i iters)
  show ?case
  proof (cases k)
    case 0
    then show ?thesis by (simp add: split_beta Let_def)
  next
    case (Suc k')
    with Cons.prems have "k' < length iters" by simp
    from Cons.IH [OF this] Suc show ?thesis
      by (simp add: split_beta Let_def)
  qed
qed

lemma run_loop_totalFrames:
  "totalFrames (snd (run_loop h iters s)) = totalFrames s + of_nat (length iters)"
  by (induction iters arbitrary: s) (simp_all add: split_beta Let_def frame_state)

lemma frame_upload_draw:
  "filter (\<lambda>c. is_uniform1f c \<or> is_draw c) (fst (frame h i s)) =
     [glUniform1f (uniformT h) (round32 (real_of_int (sint (totalFrames s)))),
      glDrawArraysInstanced 0 4 800]"
  by (simp add: frame_calls resize_def Let_def n_def)

text \<open>
  Claim C7, as the code has it. In the \<open>k\<close>-th iteration of the loop (counting from 1, for
  \<open>k < 2 ^ 31\<close>, so that the \<open>int\<close> counter has not overflowed) the value uploaded as the
  uniform \<open>T\<close> is \<open>k - 1\<close>, the value of the frame counter before this iteration increments
  it, converted to \<open>float\<close>: rounded to the nearest binary32 value, which is \<open>k - 1\<close> itself
  as long as \<open>k - 1 \<le> 2 ^ 24\<close>. The upload is the only one of that iteration and is followed
  by the only draw, of 800 instances of 4 vertices; and after \<open>k\<close> iterations the counter
  holds \<open>k\<close>.
\<close>

theorem frame_time_upload:
  assumes "1 \<le> k" and "k \<le> length iters" and "k < 2 ^ 31"
  shows "filter (\<lambda>c. is_uniform1f c \<or> is_draw c)
           (fst (run_loop h iters (init_state t0)) ! (k - 1))
         = [glUniform1f (uniformT h) (round32 (real k - 1)), glDrawArraysInstanced 0 4 800]
       \<and> (k \<le> 2 ^ 24 + 1 \<longrightarrow> round32 (real k - 1) = real k - 1)
       \<and> totalFrames (snd (run_loop h (take k iters) (init_state t0))) = of_nat k
       \<and> sint (totalFrames (snd (run_loop h (take k iters) (init_state t0)))) = int k"
proof (intro conjI impI)
  let ?s = "snd (run_loop h (take (k - 1) iters) (init_state t0))"
  from assms have lt: "k - 1 < length iters" and small: "k - 1 < 2 ^ 31"
    by simp_all
  have "totalFrames ?s = of_nat (k - 1)"
    using assms by (simp add: run_loop_totalFrames init_state_def)
  then have "sint (totalFrames ?s) = int (k - 1)"
    using sint_of_nat_small [OF small] by simp
  moreover have "real_of_int (int (k - 1)) = real k - 1"
    using assms by (simp add: of_nat_diff)
  ultimately have val: "real_of_int (sint (totalFrames ?s)) = real k - 1"
    by simp
  have "filter (\<lambda>c. is_uniform1f c \<or> is_draw c)
           (fst (run_loop h iters (init_state t0)) ! (k - 1))
      = filter (\<lambda>c. is_uniform1f c \<or> is_draw c) (fst (frame h (iters ! (k - 1)) ?s))"
    by (simp only: run_loop_nth [OF lt])
  also have "\<dots> = [glUniform1f (uniformT h) (round32 (real_of_int (sint (totalFrames ?s)))),
                    glDrawArraysInstanced 0 4 800]"
    by (rule frame_upload_draw)
  finally show "filter (\<lambda>c. is_uniform1f c \<or> is_draw c)
           (fst (run_loop h iters (init_state t0)) ! (k - 1))
         = [glUniform1f (uniformT h) (round32 (real k - 1)), glDrawArraysInstanced 0 4 800]"
    by (simp only: val)
  show total: "totalFrames (snd (run_loop h (take k iters) (init_state t0))) = of_nat k"
    using assms by (simp add: run_loop_totalFrames init_state_def)
  show "sint (totalFrames (snd (run_loop h (take k iters) (init_state t0)))) = int k"
    using sint_of_nat_small [OF assms(3)] by (simp only: total)
next
  assume "k \<le> 2 ^ 24 + 1"
  with assms(1) have "\<bar>int k - 1\<bar> \<le> 2 ^ 24" by simp
  then have "round32 (real_of_int (int k - 1)) = real_of_int (int k - 1)"
    by (rule round32_int)
  then show "round32 (real k - 1) = real k - 1" by simp
qed

text \<open>
  Two instances: the second iteration uploads 1, and the 16777218-th uploads 16777216,
  since the counter's value 16777217 before it is not a binary32 value.
\<close>

theorem frame_time_upload_witness:
  "filter (\<lambda>c. is_uniform1f c \<or> is_draw c)
        (fst (run_loop sample_handles
               [sample_input 1024 768 1 (1 / 2), sample_input 1024 768 2 1]
               (init_state 0)) ! (2 - 1))
       = [glUniform1f 1 1, glDrawArraysInstanced 0 4 800]
   \<and> totalFrames (snd (run_loop sample_handles
               (take 2 [sample_input 1024 768 1 (1 / 2), sample_input 1024 768 2 1])
               (init_state 0))) = 2
   \<and> filter (\<lambda>c. is_uniform1f c \<or> is_draw c)
        (fst (run_loop sample_handles (replicate 16777218 (sample_input 1024 768 1 0))
               (init_state 0)) ! (16777218 - 1))
       = [glUniform1f 1 16777216, glDrawArraysInstanced 0 4 800]"
proof -
  have "round32 1 = 1" and "round32 16777217 = 16777216"
    by code_simp+
  then have r1: "round32 (real 2 - 1) = 1" and r2: "round32 (real 16777218 - 1) = 16777216"
    by simp_all
  have h: "uniformT sample_handles = 1"
    by (simp add: sample_handles_def)
  have a: "(1::nat) \<le> 2"
      "(2::nat) \<le> length [sample_input 1024 768 1 (1 / 2), sample_input 1024 768 2 1]"
      "(2::nat) < 2 ^ 31"
    by simp_all
  have b1: "(1::nat) \<le> 16777218" and b3: "(16777218::nat) < 2 ^ 31"
    by simp_all
  have b2: "(16777218::nat) \<le> length (replicate 16777218 (sample_input 1024 768 1 0))"
    by (simp only: length_replicate order_refl)
  note second = frame_time_upload [OF a, of sample_handles 0]
  note late = frame_time_upload [OF b1 b2 b3, of sample_handles 0]
  have "filter (\<lambda>c. is_uniform1f c \<or> is_draw c)
        (fst (run_loop sample_handles
               [sample_input 1024 768 1 (1 / 2), sample_input 1024 768 2 1]
               (init_state 0)) ! (2 - 1))
       = [glUniform1f 1 1, glDrawArraysInstanced 0 4 800]"
    using conjunct1 [OF second] by (simp only: r1 h)
  moreover have "totalFrames (snd (run_loop sample_handles
               (take 2 [sample_input 1024 768 1 (1 / 2), sample_input 1024 768 2 1])
               (init_state 0))) = 2"
    using conjunct1 [OF conjunct2 [OF conjunct2 [OF second]]] by (simp only: of_nat_numeral)
  moreover have "filter (\<lambda>c. is_uniform1f c \<or> is_draw c)
        (fst (run_loop sample_handles (replicate 16777218 (sample_input 1024 768 1 0))
               (init_state 0)) ! (16777218 - 1))
       = [glUniform1f 1 16777216, glDrawArraysInstanced 0 4 800]"
    using conjunct1 [OF late] by (simp only: r2 h)
  ultimately show ?thesis by (intro conjI)
qed

text \<open>
  The claim as stated fails at the first iteration: the value uploaded there is 0, not 1.
\<close>

theorem frame_time_upload_counterexample:
  "filter is_uniform1f
     (fst (run_loop sample_handles [sample_input 1024 768 1 (1 / 2)] (init_state 0)) ! (1 - 1))
     = [glUniform1f 1 0]
   \<and> filter is_uniform1f
     (fst (run_loop sample_handles [sample_input 1024 768 1 (1 / 2)] (init_state 0)) ! (1 - 1))
     \<noteq> [glUniform1f 1 1]"
  by (simp add: frame_def resize_def init_state_def Let_def sample_handles_def sample_input_def
      round32_zero)

subsection \<open>The render target of every draw\<close>

lemma draw_targets_append:
  "draw_targets g (a @ b) = draw_targets g a @ draw_targets (gl_run g a) b"
  by (induction a arbitrary: g) simp_all

lemma gl_run_append: "gl_run g (a @ b) = gl_run (gl_run g a) b"
  by (induction a arbitrary: g) simp_all

lemma target_cached_init: "target_cached (init_state t0) no_textures"
  by (simp add: target_cached_def init_state_def no_textures_def)

text \<open>Deleting \<open>tex\<close> leaves no texture with storage and nothing bound.\<close>

lemma delete_cached:
  assumes "target_cached s g"
  shows "gl_step (glDeleteTextures (tex s)) g = no_textures"
proof -
  from assms have none: "\<And>t. t \<noteq> tex s \<Longrightarrow> storage g t = None"
    and units: "image_unit0 g = tex s" "texture_2d g = tex s"
    and own: "tex s = 0 \<Longrightarrow> storage g (tex s) = None"
    by (auto simp: target_cached_def)
  have "storage (gl_step (glDeleteTextures (tex s)) g) = (\<lambda>t. None)"
  proof
    fix t
    show "storage (gl_step (glDeleteTextures (tex s)) g) t = None"
      using none [of t] own by (cases "t = tex s") auto
  qed
  moreover have "texture_2d (gl_step (glDeleteTextures (tex s)) g) = 0"
    and "image_unit0 (gl_step (glDeleteTextures (tex s)) g) = 0"
    using units by auto
  ultimately show ?thesis
    by (simp add: no_textures_def)
qed

lemma resize_textures:
  assumes "target_cached s g" and "new_texture i \<noteq> 0"
  shows "gl_run g (fst (resize h i s)) =
           \<lparr>texture_2d = new_texture i,
            storage = (\<lambda>t. if t = new_texture i \<and> 1 \<le> fb_width i \<and> 1 \<le> fb_height i
                           then Some (fb_width i, fb_height i) else None),
            image_unit0 = new_texture i\<rparr>"
    and "draw_targets g (fst (resize h i s)) = []"
proof -
  let ?pre = "[printf (''rendering '' @ fmt_i (int n) @ '' bubbles at '' @ fmt_i (fb_width i)
                       @ '' x '' @ fmt_i (fb_height i) @ eol),
               glViewport 0 0 (fb_width i) (fb_height i),
               glUniform2f (uniformWindow h) (real_of_int (fb_width i))
                 (real_of_int (fb_height i))]"
  let ?post = "[glGenTextures (new_texture i),
                glBindTexture (new_texture i),
                glTexStorage2D 1 (fb_width i) (fb_height i),
                glBindFramebuffer GL_FRAMEBUFFER (blitFBO h),
                glFramebufferTexture2D (new_texture i),
                glBindFramebuffer GL_FRAMEBUFFER (renderFBO h),
                glDrawBuffers 0,
                glFramebufferParameteri GL_FRAMEBUFFER_DEFAULT_WIDTH (fb_width i),
                glFramebufferParameteri GL_FRAMEBUFFER_DEFAULT_HEIGHT (fb_height i),
                glBindImageTexture 0 (new_texture i)]"
  have calls: "fst (resize h i s) = ?pre @ glDeleteTextures (tex s) # ?post"
    by (simp add: resize_def Let_def)
  have pre: "gl_run g ?pre = g"
    by simp
  have "gl_run g (fst (resize h i s)) = gl_run (gl_run g ?pre) (glDeleteTextures (tex s) # ?post)"
    by (simp only: calls gl_run_append)
  also have "\<dots> = gl_run g (glDeleteTextures (tex s) # ?post)"
    by (simp only: pre)
  also have "\<dots> = gl_run (gl_step (glDeleteTextures (tex s)) g) ?post"
    by (simp only: gl_run.simps)
  also have "\<dots> = gl_run no_textures ?post"
    by (simp only: delete_cached [OF assms(1)])
  also have "\<dots> = \<lparr>texture_2d = new_texture i,
            storage = (\<lambda>t. if t = new_texture i \<and> 1 \<le> fb_width i \<and> 1 \<le> fb_height i
                           then Some (fb_width i, fb_height i) else None),
            image_unit0 = new_texture i\<rparr>"
    using assms(2) by (auto simp: no_textures_def)
  finally show "gl_run g (fst (resize h i s)) =
           \<lparr>texture_2d = new_texture i,
            storage = (\<lambda>t. if t = new_texture i \<and> 1 \<le> fb_width i \<and> 1 \<le> fb_height i
                           then Some (fb_width i, fb_height i) else None),
            image_unit0 = new_texture i\<rparr>" .
  show "draw_targets g (fst (resize h i s)) = []"
    by (simp add: resize_def Let_def)
qed

lemma frame_target:
  assumes "target_cached s g" and "new_texture i \<noteq> 0"
  shows "draw_targets g (fst (frame h i s)) =
           [if 1 \<le> fb_width i \<and> 1 \<le> fb_height i
            then Some (fb_width i, fb_height i) else None]"
    and "target_cached (snd (frame h i s)) (gl_run g (fst (frame h i s)))"
proof -
  show "draw_targets g (fst (frame h i s)) =
           [if 1 \<le> fb_width i \<and> 1 \<le> fb_height i
            then Some (fb_width i, fb_height i) else None]"
  proof (cases "lastWidth s \<noteq> fb_width i \<or> lastHeight s \<noteq> fb_height i")
    case True
    then show ?thesis
      using assms(2)
      by (simp add: frame_calls draw_targets_append resize_textures [OF assms] image_target_def)
  next
    case False
    then show ?thesis
      using assms(1)
      by (cases "tex s = 0")
         (auto simp: frame_calls target_cached_def image_target_def split: if_splits)
  qed
  show "target_cached (snd (frame h i s)) (gl_run g (fst (frame h i s)))"
  proof (cases "lastWidth s \<noteq> fb_width i \<or> lastHeight s \<noteq> fb_height i")
    case True
    then show ?thesis
      using assms(2)
      by (simp add: frame_calls frame_state gl_run_append resize_textures [OF assms]
          target_cached_def)
  next
    case False
    then show ?thesis
      using assms(1)
      by (auto simp: frame_calls frame_state target_cached_def split: if_splits)
  qed
qed

lemma run_loop_targets:
  assumes "target_cached s g" and "list_all (\<lambda>i. new_texture i \<noteq> 0) iters"
  shows "draw_targets g (concat (fst (run_loop h iters s))) =
           map (\<lambda>i. if 1 \<le> fb_width i \<and> 1 \<le> fb_height i
                     then Some (fb_width i, fb_height i) else None) iters"
  using assms
proof (induction iters arbitrary: s g)
  case Nil
  show ?case by simp
next
  case (Cons i iters)
  from Cons.prems have i: "new_texture i \<noteq> 0" and rest: "list_all (\<lambda>i. new_texture i \<noteq> 0) iters"
    by simp_all
  note step = frame_target [OF Cons.prems(1) i, of h]
  from Cons.IH [OF step(2) rest] step(1) show ?case
    by (simp add: split_beta Let_def draw_targets_append)
qed

lemma main_targets:
  assumes "glfwInit_ok a" and "window_ok a" and "glad_ok a"
    and "isCompiled (vs_answer a)" and "isCompiled (fs_answer a)" and "isLinked (link a)"
  shows "draw_targets no_textures (fst (main a argv iters)) =
           draw_targets no_textures
             (concat (fst (run_loop (main_handles a) iters (init_state (start_clock a)))))"
  using assms
  by (simp add: main_def Let_def split_beta compile_and_attach_shader_def link_program_def
      window_hints_def scene_setup_def draw_targets_append gl_run_append)

lemma first_frame_storage:
  "filter is_storage (fst (frame h i (init_state t0))) =
     (if zero_size i then [] else [glTexStorage2D 1 (fb_width i) (fb_height i)])"
  by (auto simp: frame_calls resize_def Let_def init_state_def zero_size_def)

text \<open>
  Claim C10, as the code has it. The first iteration takes the resize branch exactly when
  the size it observes is not \<open>0 x 0\<close>, the value the cached size starts with. In a run
  whose setup succeeds (and in which \<open>glGenTextures\<close> never returns the name 0), every
  draw of an iteration that observed a size with both dimensions at least 1 stores into
  a texture that is bound to image unit 0 and has storage of exactly that size; a draw of
  an iteration that observed any other size, \<open>0 x 0\<close> in the first iteration included,
  has no image to store into.
\<close>

theorem draw_has_target:
  assumes "glfwInit_ok a" and "window_ok a" and "glad_ok a"
    and "isCompiled (vs_answer a)" and "isCompiled (fs_answer a)" and "isLinked (link a)"
    and "list_all (\<lambda>i. new_texture i \<noteq> 0) iters"
  shows "draw_targets no_textures (fst (main a argv iters)) =
           map (\<lambda>i. if 1 \<le> fb_width i \<and> 1 \<le> fb_height i
                     then Some (fb_width i, fb_height i) else None) iters
       \<and> filter is_storage (fst (frame h i (init_state t0))) =
           (if zero_size i then [] else [glTexStorage2D 1 (fb_width i) (fb_height i)])"
  using main_targets [OF assms(1-6)] run_loop_targets [OF target_cached_init assms(7)]
    first_frame_storage
  by simp

theorem draw_has_target_witness:
  "glfwInit_ok sample_answers \<and> window_ok sample_answers \<and> glad_ok sample_answers
   \<and> isCompiled (vs_answer sample_answers) \<and> isCompiled (fs_answer sample_answers)
   \<and> isLinked (link sample_answers)
   \<and> list_all (\<lambda>i. new_texture i \<noteq> 0)
        [sample_input 1024 768 1 (1 / 2), sample_input 1024 768 2 1,
         sample_input 0 0 3 (3 / 2), sample_input 640 480 4 2]
   \<and> draw_targets no_textures
        (fst (main sample_answers [''bubbles'']
               [sample_input 1024 768 1 (1 / 2), sample_input 1024 768 2 1,
                sample_input 0 0 3 (3 / 2), sample_input 640 480 4 2]))
       = [Some (1024, 768), Some (1024, 768), None, Some (640, 480)]
   \<and> filter is_storage (fst (frame sample_handles (sample_input 640 480 4 2) (init_state 0)))
       = [glTexStorage2D 1 640 480]"
  using draw_has_target
    [of sample_answers
        "[sample_input 1024 768 1 (1 / 2), sample_input 1024 768 2 1,
          sample_input 0 0 3 (3 / 2), sample_input 640 480 4 2]"
        "[''bubbles'']" sample_handles "sample_input 640 480 4 2" 0]
  by (simp add: sample_answers_def sample_input_def zero_size_def)

text \<open>
  The claim as stated fails when the first size observed is \<open>0 x 0\<close>: the resize branch is
  not taken, and the first draw is issued with no texture created or bound, in the
  iteration taken alone and in the whole program.
\<close>

theorem draw_has_target_counterexample:
  "filter is_resize_call (fst (frame sample_handles (sample_input 0 0 1 (1 / 2)) (init_state 0)))
     = []
   \<and> filter is_draw (fst (frame sample_handles (sample_input 0 0 1 (1 / 2)) (init_state 0)))
     = [glDrawArraysInstanced 0 4 800]
   \<and> draw_targets no_textures
        (fst (frame sample_handles (sample_input 0 0 1 (1 / 2)) (init_state 0)))
     = [None]
   \<and> draw_targets no_textures
        (fst (main sample_answers [''bubbles''] [sample_input 0 0 1 (1 / 2)]))
     = [None]"
proof -
  have ok: "glfwInit_ok sample_answers" "window_ok sample_answers" "glad_ok sample_answers"
    "isCompiled (vs_answer sample_answers)" "isCompiled (fs_answer sample_answers)"
    "isLinked (link sample_answers)"
    by (simp_all add: sample_answers_def)
  have f: "fst (frame h (sample_input 0 0 t (1 / 2)) (init_state t0)) =
      [glBindFramebuffer GL_FRAMEBUFFER (renderFBO h),
       glUniform1f (uniformT h) 0,
       glDrawArraysInstanced 0 4 800,
       glBindFramebuffer GL_READ_FRAMEBUFFER (blitFBO h),
       glBindFramebuffer GL_DRAW_FRAMEBUFFER 0,
       glBlitFramebuffer 0 0 0 0 0 0 0 0,
       glfwSwapBuffers]
      @ (if 2 \<le> 1 / 2 - t0 then [printf_fps (1 / (1 / 2 - t0)), fflush_stdout] else [])
      @ [glfwPollEvents]" for h t t0
    by (simp add: frame_calls init_state_def sample_input_def n_def round32_zero)
  have "draw_targets no_textures (fst (main sample_answers [''bubbles''] [sample_input 0 0 1 (1 / 2)]))
      = draw_targets no_textures
          (fst (frame (main_handles sample_answers) (sample_input 0 0 1 (1 / 2))
                 (init_state (start_clock sample_answers))))"
    by (simp add: main_targets [OF ok] split_beta Let_def)
  then show ?thesis
    by (simp add: f image_target_def no_textures_def)
qed

subsection \<open>Shader build failures\<close>

lemma lines_of_getline:
  "stream \<noteq> [] \<Longrightarrow>
     lines_of stream =
       takeWhile (\<lambda>d. d \<noteq> CHR 0x0A) stream
       # lines_of (drop 1 (dropWhile (\<lambda>d. d \<noteq> CHR 0x0A) stream))"
proof (induction stream)
  case Nil
  then show ?case by simp
next
  case (Cons c cs)
  show ?case
  proof (cases "c = CHR 0x0A")
    case True
    then show ?thesis by simp
  next
    case False
    show ?thesis
    proof (cases "cs = []")
      case True
      with False show ?thesis by simp
    next
      case nonempty: False
      from Cons.IH [OF nonempty] False show ?thesis by simp
    qed
  qed
qed

lemma listing_numbered: "listing l stream = map fprintf_stderr (numbered l (lines_of stream))"
proof (induction l stream rule: listing.induct)
  case (1 l stream)
  show ?case
  proof (cases stream)
    case Nil
    then show ?thesis by (simp add: listing.simps)
  next
    case (Cons c cs)
    then have ne: "stream \<noteq> []" by simp
    have g: "getline stream =
        Some (takeWhile (\<lambda>d. d \<noteq> CHR 0x0A) stream,
              drop 1 (dropWhile (\<lambda>d. d \<noteq> CHR 0x0A) stream))"
      using Cons by simp
    from "1.IH" [OF g refl] show ?thesis
      by (subst listing.simps) (simp add: g lines_of_getline [OF ne])
  qed
qed

lemma lines_of_join:
  "concat (map (\<lambda>t. t @ eol) (lines_of src)) =
     (if src = [] \<or> last src = CHR 0x0A then src else src @ eol)"
proof (induction src)
  case Nil
  show ?case by simp
next
  case (Cons c cs)
  then show ?case
    by (cases "lines_of cs") (auto split: if_splits)
qed

lemma stderr_text_append: "stderr_text (a @ b) = stderr_text a @ stderr_text b"
  by (induction a rule: stderr_text.induct) simp_all

lemma stderr_text_map: "stderr_text (map fprintf_stderr ts) = concat ts"
  by (induction ts) simp_all

lemma filter_draw_map: "filter is_draw (map fprintf_stderr ts) = []"
  by (induction ts) simp_all

lemma vs_lines: "concat (map (\<lambda>t. t @ eol) (lines_of vs)) = vs @ eol"
proof -
  have "vs \<noteq> []" and "last vs \<noteq> CHR 0x0A"
    by (simp_all add: vs_def)
  then show ?thesis
    by (simp only: lines_of_join) simp
qed

lemma fs_lines: "concat (map (\<lambda>t. t @ eol) (lines_of fs)) = fs @ eol"
proof -
  have "fs \<noteq> []" and "last fs \<noteq> CHR 0x0A"
    by (simp_all add: fs_def)
  then show ?thesis
    by (simp only: lines_of_join) simp
qed

lemma compile_failure:
  assumes "\<not> isCompiled a" and "shader_infoLog a = Some lg"
  shows "snd (compile_and_attach_shader a program type source) = returned False"
    and "stderr_text (fst (compile_and_attach_shader a program type source)) =
           ''Failed to compile shader'' @ eol @ concat (numbered 1 (lines_of source))
           @ lg @ eol"
    and "filter is_draw (fst (compile_and_attach_shader a program type source)) = []"
    and "last (fst (compile_and_attach_shader a program type source)) =
           glDeleteShader (new_shader a)"
  using assms
  by (simp_all add: compile_and_attach_shader_def Let_def listing_numbered stderr_text_append
      stderr_text_map filter_draw_map)

lemma compile_no_log:
  assumes "\<not> isCompiled a" and "shader_infoLog a = None"
  shows "snd (compile_and_attach_shader a program type source) = undefined_behaviour"
  using assms by (simp add: compile_and_attach_shader_def Let_def)

lemma compile_success:
  assumes "isCompiled a"
  shows "compile_and_attach_shader a program type source =
           ([glCreateShader type (new_shader a), glShaderSource (new_shader a) source,
             glCompileShader (new_shader a), glAttachShader program (new_shader a),
             glDeleteShader (new_shader a)], returned True)"
  using assms by (simp add: compile_and_attach_shader_def Let_def)

lemma startup_quiet:
  "stderr_text window_hints = []" "filter is_draw window_hints = []"
  by (simp_all add: window_hints_def)

text \<open>
  Claim C6, as the code has it. In a run that gets as far as building the shaders:
  when a shader fails to compile and the driver has an info log for it
  (\<open>GL_INFO_LOG_LENGTH\<close> is not 0), the error stream receives \<open>Failed to compile shader\<close>,
  then that shader's source line by line, each as \<open>"%4i| %s\n"\<close> with line numbers from 1,
  then the compiler's log; the failing shader object is the last thing deleted; \<open>main\<close>
  returns \<open>-1\<close>; and no draw is issued, whatever the frame loop would have been given.
  When the program fails to link and the driver has an info log for it, the error stream
  receives \<open>Failed to link program\<close> followed by the linker's log, and no source; \<open>main\<close>
  returns \<open>-1\<close> and no draw is issued.
  When the failing step has no info log (\<open>GL_INFO_LOG_LENGTH\<close> is 0), the run ends in
  undefined behaviour instead: the code subscripts an empty vector.
  (The numbered lines are the source: joined again they give it back.)
\<close>

theorem shader_failure_is_fatal:
  assumes "glfwInit_ok a" and "window_ok a" and "glad_ok a"
  shows "(\<not> isCompiled (vs_answer a) \<and> shader_infoLog (vs_answer a) = Some lg \<longrightarrow>
            snd (main a argv iters) = returned (- 1)
          \<and> stderr_text (fst (main a argv iters)) =
              ''Failed to compile shader'' @ eol @ concat (numbered 1 (lines_of vs))
              @ lg @ eol
          \<and> last (fst (main a argv iters)) = glDeleteShader (new_shader (vs_answer a))
          \<and> filter is_draw (fst (main a argv iters)) = []
          \<and> main a argv iters = main a argv [])
       \<and> (isCompiled (vs_answer a) \<and> \<not> isCompiled (fs_answer a)
            \<and> shader_infoLog (fs_answer a) = Some lg \<longrightarrow>
            snd (main a argv iters) = returned (- 1)
          \<and> stderr_text (fst (main a argv iters)) =
              ''Failed to compile shader'' @ eol @ concat (numbered 1 (lines_of fs))
              @ lg @ eol
          \<and> last (fst (main a argv iters)) = glDeleteShader (new_shader (fs_answer a))
          \<and> filter is_draw (fst (main a argv iters)) = []
          \<and> main a argv iters = main a argv [])
       \<and> (isCompiled (vs_answer a) \<and> isCompiled (fs_answer a) \<and> \<not> isLinked (link a)
            \<and> program_infoLog (link a) = Some lg \<longrightarrow>
            snd (main a argv iters) = returned (- 1)
          \<and> stderr_text (fst (main a argv iters)) =
              ''Failed to link program '' @ lg @ eol
          \<and> filter is_draw (fst (main a argv iters)) = []
          \<and> main a argv iters = main a argv [])
       \<and> (\<not> isCompiled (vs_answer a) \<and> shader_infoLog (vs_answer a) = None \<longrightarrow>
            snd (main a argv iters) = undefined_behaviour)
       \<and> (isCompiled (vs_answer a) \<and> \<not> isCompiled (fs_answer a)
            \<and> shader_infoLog (fs_answer a) = None \<longrightarrow>
            snd (main a argv iters) = undefined_behaviour)
       \<and> (isCompiled (vs_answer a) \<and> isCompiled (fs_answer a) \<and> \<not> isLinked (link a)
            \<and> program_infoLog (link a) = None \<longrightarrow>
            snd (main a argv iters) = undefined_behaviour)
       \<and> concat (map (\<lambda>t. t @ eol) (lines_of vs)) = vs @ eol
       \<and> concat (map (\<lambda>t. t @ eol) (lines_of fs)) = fs @ eol"
proof (intro conjI impI)
  assume "\<not> isCompiled (vs_answer a) \<and> shader_infoLog (vs_answer a) = Some lg"
  then have v: "\<not> isCompiled (vs_answer a)" and lg: "shader_infoLog (vs_answer a) = Some lg"
    by simp_all
  note f = compile_failure [OF v lg, of "new_program a" GL_VERTEX_SHADER vs]
  have m: "main a argv iters =
      ([glfwInit (select_backend argv)] @ window_hints @ [glfwCreateWindow W H ''Rive Bubbles'']
       @ [glfwSetWindowTitle ''Rive Bubbles'', glfwMakeContextCurrent, glfwSwapInterval 0,
          gladLoadGLES2Loader]
       @ [printf (''GL_VENDOR: '' @ gl_vendor a @ eol),
          printf (''GL_RENDERER: '' @ gl_renderer a @ eol),
          printf (''GL_VERSION: '' @ gl_version a @ eol),
          fflush_stdout, glCreateProgram (new_program a)]
       @ fst (compile_and_attach_shader (vs_answer a) (new_program a) GL_VERTEX_SHADER vs),
       returned (- 1))" for iters
    using assms f(1) by (simp add: main_def Let_def split_beta)
  have ne: "fst (compile_and_attach_shader (vs_answer a) (new_program a) GL_VERTEX_SHADER vs) \<noteq> []"
    using v lg by (simp add: compile_and_attach_shader_def Let_def)
  show "snd (main a argv iters) = returned (- 1)"
    by (simp add: m)
  show "stderr_text (fst (main a argv iters)) =
      ''Failed to compile shader'' @ eol @ concat (numbered 1 (lines_of vs)) @ lg @ eol"
    by (simp add: m stderr_text_append startup_quiet f(2))
  show "last (fst (main a argv iters)) = glDeleteShader (new_shader (vs_answer a))"
    using ne by (simp add: m f(4))
  show "filter is_draw (fst (main a argv iters)) = []"
    by (simp add: m startup_quiet f(3))
  show "main a argv iters = main a argv []"
    by (simp only: m)
next
  assume "isCompiled (vs_answer a) \<and> \<not> isCompiled (fs_answer a)
      \<and> shader_infoLog (fs_answer a) = Some lg"
  then have v: "isCompiled (vs_answer a)" and nf: "\<not> isCompiled (fs_answer a)"
    and lg: "shader_infoLog (fs_answer a) = Some lg"
    by simp_all
  note f = compile_failure [OF nf lg, of "new_program a" GL_FRAGMENT_SHADER fs]
  have m: "main a argv iters =
      ([glfwInit (select_backend argv)] @ window_hints @ [glfwCreateWindow W H ''Rive Bubbles'']
       @ [glfwSetWindowTitle ''Rive Bubbles'', glfwMakeContextCurrent, glfwSwapInterval 0,
          gladLoadGLES2Loader]
       @ [printf (''GL_VENDOR: '' @ gl_vendor a @ eol),
          printf (''GL_RENDERER: '' @ gl_renderer a @ eol),
          printf (''GL_VERSION: '' @ gl_version a @ eol),
          fflush_stdout, glCreateProgram (new_program a)]
       @ fst (compile_and_attach_shader (vs_answer a) (new_program a) GL_VERTEX_SHADER vs)
       @ fst (compile_and_attach_shader (fs_answer a) (new_program a) GL_FRAGMENT_SHADER fs),
       returned (- 1))" for iters
    using assms f(1) v by (simp add: main_def Let_def split_beta compile_success)
  have ne: "fst (compile_and_attach_shader (fs_answer a) (new_program a) GL_FRAGMENT_SHADER fs) \<noteq> []"
    using nf lg by (simp add: compile_and_attach_shader_def Let_def)
  show "snd (main a argv iters) = returned (- 1)"
    by (simp add: m)
  show "stderr_text (fst (main a argv iters)) =
      ''Failed to compile shader'' @ eol @ concat (numbered 1 (lines_of fs)) @ lg @ eol"
    by (simp add: m stderr_text_append startup_quiet f(2) compile_success [OF v])
  show "last (fst (main a argv iters)) = glDeleteShader (new_shader (fs_answer a))"
    using ne by (simp add: m f(4))
  show "filter is_draw (fst (main a argv iters)) = []"
    by (simp add: m startup_quiet f(3) compile_success [OF v])
  show "main a argv iters = main a argv []"
    by (simp only: m)
next
  assume "isCompiled (vs_answer a) \<and> isCompiled (fs_answer a) \<and> \<not> isLinked (link a)
      \<and> program_infoLog (link a) = Some lg"
  then have v: "isCompiled (vs_answer a)" and f: "isCompiled (fs_answer a)"
    and nl: "\<not> isLinked (link a)" and lg: "program_infoLog (link a) = Some lg"
    by simp_all
  have m: "main a argv iters =
      ([glfwInit (select_backend argv)] @ window_hints @ [glfwCreateWindow W H ''Rive Bubbles'']
       @ [glfwSetWindowTitle ''Rive Bubbles'', glfwMakeContextCurrent, glfwSwapInterval 0,
          gladLoadGLES2Loader]
       @ [printf (''GL_VENDOR: '' @ gl_vendor a @ eol),
          printf (''GL_RENDERER: '' @ gl_renderer a @ eol),
          printf (''GL_VERSION: '' @ gl_version a @ eol),
          fflush_stdout, glCreateProgram (new_program a)]
       @ fst (compile_and_attach_shader (vs_answer a) (new_program a) GL_VERTEX_SHADER vs)
       @ fst (compile_and_attach_shader (fs_answer a) (new_program a) GL_FRAGMENT_SHADER fs)
       @ [glLinkProgram (new_program a),
          fprintf_stderr (''Failed to link program '' @ lg @ eol),
          fflush_stderr],
       returned (- 1))" for iters
    using assms v f nl lg
    by (simp add: main_def Let_def split_beta compile_success link_program_def)
  show "snd (main a argv iters) = returned (- 1)"
    by (simp add: m)
  show "stderr_text (fst (main a argv iters)) = ''Failed to link program '' @ lg @ eol"
    by (simp add: m stderr_text_append startup_quiet compile_success [OF v] compile_success [OF f])
  show "filter is_draw (fst (main a argv iters)) = []"
    by (simp add: m startup_quiet compile_success [OF v] compile_success [OF f])
  show "main a argv iters = main a argv []"
    by (simp only: m)
next
  assume "\<not> isCompiled (vs_answer a) \<and> shader_infoLog (vs_answer a) = None"
  then have "snd (compile_and_attach_shader (vs_answer a) (new_program a) GL_VERTEX_SHADER vs)
      = undefined_behaviour"
    by (simp add: compile_no_log)
  then show "snd (main a argv iters) = undefined_behaviour"
    using assms by (simp add: main_def Let_def split_beta)
next
  assume "isCompiled (vs_answer a) \<and> \<not> isCompiled (fs_answer a)
      \<and> shader_infoLog (fs_answer a) = None"
  then have v: "isCompiled (vs_answer a)"
    and "snd (compile_and_attach_shader (fs_answer a) (new_program a) GL_FRAGMENT_SHADER fs)
      = undefined_behaviour"
    by (simp_all add: compile_no_log)
  then show "snd (main a argv iters) = undefined_behaviour"
    using assms by (simp add: main_def Let_def split_beta compile_success)
next
  assume "isCompiled (vs_answer a) \<and> isCompiled (fs_answer a) \<and> \<not> isLinked (link a)
      \<and> program_infoLog (link a) = None"
  then show "snd (main a argv iters) = undefined_behaviour"
    using assms by (simp add: main_def Let_def split_beta compile_success link_program_def)
next
  show "concat (map (\<lambda>t. t @ eol) (lines_of vs)) = vs @ eol"
    by (rule vs_lines)
  show "concat (map (\<lambda>t. t @ eol) (lines_of fs)) = fs @ eol"
    by (rule fs_lines)
qed

text \<open>
  Three failures with an info log, and the same three without one.
\<close>

theorem shader_failure_is_fatal_witness:
  "snd (main (sample_answers
           \<lparr>vs_answer := \<lparr>new_shader = 2, isCompiled = False,
                           shader_infoLog = Some ''ERROR: 0:17: syntax error''\<rparr>\<rparr>)
           [''bubbles''] [sample_input 1024 768 1 (1 / 2)]) = returned (- 1)
   \<and> stderr_text (fst (main (sample_answers
           \<lparr>vs_answer := \<lparr>new_shader = 2, isCompiled = False,
                           shader_infoLog = Some ''ERROR: 0:17: syntax error''\<rparr>\<rparr>)
           [''bubbles''] [sample_input 1024 768 1 (1 / 2)]))
       = ''Failed to compile shader'' @ eol @ concat (numbered 1 (lines_of vs))
         @ ''ERROR: 0:17: syntax error'' @ eol
   \<and> take 2 (numbered 1 (lines_of vs))
       = [''   1| #version 310 es'' @ eol, ''   2| precision highp float;'' @ eol]
   \<and> numbered 1 (lines_of vs) ! 19 = ''  20| }'' @ eol
   \<and> length (numbered 1 (lines_of vs)) = 20
   \<and> last (fst (main (sample_answers
           \<lparr>fs_answer := \<lparr>new_shader = 3, isCompiled = False,
                           shader_infoLog = Some ''ERROR: 0:7: r32ui''\<rparr>\<rparr>)
           [''bubbles''] [sample_input 1024 768 1 (1 / 2)])) = glDeleteShader 3
   \<and> stderr_text (fst (main (sample_answers
           \<lparr>link := \<lparr>isLinked = False, program_infoLog = Some ''link error''\<rparr>\<rparr>)
           [''bubbles''] [sample_input 1024 768 1 (1 / 2)]))
       = ''Failed to link program link error'' @ eol
   \<and> snd (main (sample_answers
           \<lparr>vs_answer := \<lparr>new_shader = 2, isCompiled = False, shader_infoLog = None\<rparr>\<rparr>)
           [''bubbles''] [sample_input 1024 768 1 (1 / 2)]) = undefined_behaviour
   \<and> snd (main (sample_answers
           \<lparr>fs_answer := \<lparr>new_shader = 3, isCompiled = False, shader_infoLog = None\<rparr>\<rparr>)
           [''bubbles''] [sample_input 1024 768 1 (1 / 2)]) = undefined_behaviour
   \<and> snd (main (sample_answers
           \<lparr>link := \<lparr>isLinked = False, program_infoLog = None\<rparr>\<rparr>)
           [''bubbles''] [sample_input 1024 768 1 (1 / 2)]) = undefined_behaviour"
proof -
  let ?av = "sample_answers
           \<lparr>vs_answer := \<lparr>new_shader = 2, isCompiled = False,
                           shader_infoLog = Some ''ERROR: 0:17: syntax error''\<rparr>\<rparr>"
  let ?af = "sample_answers
           \<lparr>fs_answer := \<lparr>new_shader = 3, isCompiled = False,
                           shader_infoLog = Some ''ERROR: 0:7: r32ui''\<rparr>\<rparr>"
  let ?al = "sample_answers
           \<lparr>link := \<lparr>isLinked = False, program_infoLog = Some ''link error''\<rparr>\<rparr>"
  let ?nv = "sample_answers
           \<lparr>vs_answer := \<lparr>new_shader = 2, isCompiled = False, shader_infoLog = None\<rparr>\<rparr>"
  let ?nf = "sample_answers
           \<lparr>fs_answer := \<lparr>new_shader = 3, isCompiled = False, shader_infoLog = None\<rparr>\<rparr>"
  let ?nl = "sample_answers \<lparr>link := \<lparr>isLinked = False, program_infoLog = None\<rparr>\<rparr>"
  let ?argv = "[''bubbles'']"
  let ?iters = "[sample_input 1024 768 1 (1 / 2)]"
  have hv: "glfwInit_ok ?av" "window_ok ?av" "glad_ok ?av"
    "\<not> isCompiled (vs_answer ?av)
     \<and> shader_infoLog (vs_answer ?av) = Some ''ERROR: 0:17: syntax error''"
    by (simp_all add: sample_answers_def)
  have hf: "glfwInit_ok ?af" "window_ok ?af" "glad_ok ?af"
    "isCompiled (vs_answer ?af) \<and> \<not> isCompiled (fs_answer ?af)
     \<and> shader_infoLog (fs_answer ?af) = Some ''ERROR: 0:7: r32ui''"
    "new_shader (fs_answer ?af) = 3"
    by (simp_all add: sample_answers_def)
  have hl: "glfwInit_ok ?al" "window_ok ?al" "glad_ok ?al"
    "isCompiled (vs_answer ?al) \<and> isCompiled (fs_answer ?al) \<and> \<not> isLinked (link ?al)
     \<and> program_infoLog (link ?al) = Some ''link error''"
    by (simp_all add: sample_answers_def)
  have gv: "glfwInit_ok ?nv" "window_ok ?nv" "glad_ok ?nv"
    "\<not> isCompiled (vs_answer ?nv) \<and> shader_infoLog (vs_answer ?nv) = None"
    by (simp_all add: sample_answers_def)
  have gf: "glfwInit_ok ?nf" "window_ok ?nf" "glad_ok ?nf"
    "isCompiled (vs_answer ?nf) \<and> \<not> isCompiled (fs_answer ?nf)
     \<and> shader_infoLog (fs_answer ?nf) = None"
    by (simp_all add: sample_answers_def)
  have gl: "glfwInit_ok ?nl" "window_ok ?nl" "glad_ok ?nl"
    "isCompiled (vs_answer ?nl) \<and> isCompiled (fs_answer ?nl) \<and> \<not> isLinked (link ?nl)
     \<and> program_infoLog (link ?nl) = None"
    by (simp_all add: sample_answers_def)
  note tv = shader_failure_is_fatal
    [OF hv(1-3), of "''ERROR: 0:17: syntax error''" ?argv ?iters]
  have v1: "snd (main ?av ?argv ?iters) = returned (- 1)"
    using tv hv(4) by blast
  have v2: "stderr_text (fst (main ?av ?argv ?iters))
       = ''Failed to compile shader'' @ eol @ concat (numbered 1 (lines_of vs))
         @ ''ERROR: 0:17: syntax error'' @ eol"
    using tv hv(4) by blast
  note tf = shader_failure_is_fatal [OF hf(1-3), of "''ERROR: 0:7: r32ui''" ?argv ?iters]
  have "last (fst (main ?af ?argv ?iters)) = glDeleteShader (new_shader (fs_answer ?af))"
    using tf hf(4) by blast
  then have f: "last (fst (main ?af ?argv ?iters)) = glDeleteShader 3"
    by (simp only: hf(5))
  note tl = shader_failure_is_fatal [OF hl(1-3), of "''link error''" ?argv ?iters]
  have "stderr_text (fst (main ?al ?argv ?iters))
       = ''Failed to link program '' @ ''link error'' @ eol"
    using tl hl(4) by blast
  then have l: "stderr_text (fst (main ?al ?argv ?iters))
       = ''Failed to link program link error'' @ eol"
    by (simp only: append.simps)
  have n: "take 2 (numbered 1 (lines_of vs))
       = [''   1| #version 310 es'' @ eol, ''   2| precision highp float;'' @ eol]"
    "numbered 1 (lines_of vs) ! 19 = ''  20| }'' @ eol"
    "length (numbered 1 (lines_of vs)) = 20"
    by code_simp+
  have uv: "snd (main ?nv ?argv ?iters) = undefined_behaviour"
    using shader_failure_is_fatal [OF gv(1-3), of "[]" ?argv ?iters] gv(4) by blast
  have uf: "snd (main ?nf ?argv ?iters) = undefined_behaviour"
    using shader_failure_is_fatal [OF gf(1-3), of "[]" ?argv ?iters] gf(4) by blast
  have ul: "snd (main ?nl ?argv ?iters) = undefined_behaviour"
    using shader_failure_is_fatal [OF gl(1-3), of "[]" ?argv ?iters] gl(4) by blast
  from v1 v2 n f l uv uf ul show ?thesis
    by (intro conjI)
qed

text \<open>
  The claim as stated fails on a link failure: what reaches the error stream is the one
  line with the linker's log, without any source, and \<open>glfwTerminate\<close> is not called
  before \<open>main\<close> returns.
\<close>

theorem shader_failure_is_fatal_counterexample:
  "stderr_text (fst (main (sample_answers
       \<lparr>link := \<lparr>isLinked = False, program_infoLog = Some ''link error''\<rparr>\<rparr>)
       [''bubbles''] []))
     = ''Failed to link program link error'' @ eol
   \<and> snd (main (sample_answers
       \<lparr>link := \<lparr>isLinked = False, program_infoLog = Some ''link error''\<rparr>\<rparr>)
       [''bubbles''] []) = returned (- 1)
   \<and> glfwTerminate \<notin> set (fst (main (sample_answers
       \<lparr>link := \<lparr>isLinked = False, program_infoLog = Some ''link error''\<rparr>\<rparr>)
       [''bubbles''] []))"
proof (intro conjI)
  let ?al = "sample_answers
       \<lparr>link := \<lparr>isLinked = False, program_infoLog = Some ''link error''\<rparr>\<rparr>"
  have m: "main ?al [''bubbles''] [] =
      ([glfwInit VULKAN] @ window_hints @ [glfwCreateWindow W H ''Rive Bubbles'']
       @ [glfwSetWindowTitle ''Rive Bubbles'', glfwMakeContextCurrent, glfwSwapInterval 0,
          gladLoadGLES2Loader]
       @ [printf (''GL_VENDOR: Google Inc.'' @ eol),
          printf (''GL_RENDERER: ANGLE'' @ eol),
          printf (''GL_VERSION: OpenGL ES 3.1'' @ eol),
          fflush_stdout, glCreateProgram 1]
       @ [glCreateShader GL_VERTEX_SHADER 2, glShaderSource 2 vs, glCompileShader 2,
          glAttachShader 1 2, glDeleteShader 2]
       @ [glCreateShader GL_FRAGMENT_SHADER 3, glShaderSource 3 fs, glCompileShader 3,
          glAttachShader 1 3, glDeleteShader 3]
       @ [glLinkProgram 1,
          fprintf_stderr (''Failed to link program link error'' @ eol),
          fflush_stderr],
       returned (- 1))"
    by (simp add: main_def sample_answers_def compile_and_attach_shader_def link_program_def
        select_backend_def Let_def)
  show "stderr_text (fst (main ?al [''bubbles''] [])) = ''Failed to link program link error'' @ eol"
    by (simp add: m window_hints_def)
  show "snd (main ?al [''bubbles''] []) = returned (- 1)"
    by (simp add: m)
  show "glfwTerminate \<notin> set (fst (main ?al [''bubbles''] []))"
    by (simp add: m window_hints_def)
qed

end
